theory Spec2Isabelle
  imports
    Complex_Main
    "HOL-Library.AList"
    "HOL-Library.Char_ord"
    "HOL-Library.Multiset"
    "HOL-Library.List_Lexorder"
    "HOL-Library.Product_Lexorder"
begin

section \<open>Tables\<close>

text \<open>
  A pandas DataFrame is a list of column names and a list of rows; a row is an association
  list from column name to cell. A cell is missing (\<open>None\<close>, \<open>NaN\<close>, \<open>NaT\<close>), text, a
  float, an integer or a timestamp (nanoseconds since the epoch).

  Floats are exact rationals extended by the two infinities: rounding error, overflow and
  the sign of zero are outside the model; \<open>NaN\<close> is the missing cell, as pandas has it.
\<close>

datatype fl = NInf | Fin rat | PInf

datatype cell = Null | Str string | Num fl | IntC int | Ts int

type_synonym row = "(string \<times> cell) list"

record dataframe =
  columns :: "string list"
  rows :: "row list"

definition cell_of :: "row \<Rightarrow> string \<Rightarrow> cell" where
  "cell_of r c = (case map_of r c of Some v \<Rightarrow> v | None \<Rightarrow> Null)"

text \<open>\<open>df[c]\<close>: the cells of column \<open>c\<close>, top to bottom.\<close>

definition col :: "dataframe \<Rightarrow> string \<Rightarrow> cell list" where
  "col df c = map (\<lambda>r. cell_of r c) (rows df)"

datatype exn =
    ValueError string
  | KeyError "string list"
  | TypeError
  | FileNotFoundError string
  | IsADirectoryError string
  | OSError string
  | SchemaError string
  | GoogleCloudError string
  | OtherError string

datatype level = INFO | WARNING | ERROR

section \<open>Sorting and duplicates, as pandas does them\<close>

text \<open>
  \<open>sort_values\<close> on several columns is a stable lexicographic sort with missing cells last.
  Each key column is ordered through its sorted categories: numbers come before text, and
  text before missing cells, so a column may mix numbers and text. Numbers and timestamps
  in one column cannot be compared: the sort raises \<open>TypeError\<close>. A single comparison of
  two cells, as \<open>min\<close> and \<open>max\<close> of a column make it, raises \<open>TypeError\<close> on any mix.
\<close>

fun kind :: "cell \<Rightarrow> nat" where
  "kind Null = 0"
| "kind (Str _) = 1"
| "kind (Num _) = 2"
| "kind (IntC _) = 2"
| "kind (Ts _) = 3"

fun enc :: "cell \<Rightarrow> nat \<times> string \<times> rat \<times> int" where
  "enc (Num NInf) = (1, [], 0, 0)"
| "enc (Num (Fin q)) = (2, [], q, 0)"
| "enc (IntC i) = (2, [], of_int i, 0)"
| "enc (Num PInf) = (3, [], 0, 0)"
| "enc (Ts t) = (4, [], 0, t)"
| "enc (Str s) = (5, s, 0, 0)"
| "enc Null = (6, [], 0, 0)"

definition comparable :: "cell list \<Rightarrow> bool" where
  "comparable cs = (length (remdups (filter (\<lambda>k. k \<noteq> 0) (map kind cs))) \<le> 1)"

definition sortable :: "cell list \<Rightarrow> bool" where
  "sortable cs = (length (remdups (filter (\<lambda>k. k \<noteq> 0 \<and> k \<noteq> 1) (map kind cs))) \<le> 1)"

definition sort_key_of :: "string list \<Rightarrow> row \<Rightarrow> (nat \<times> string \<times> rat \<times> int) list" where
  "sort_key_of ks r = map (\<lambda>c. enc (cell_of r c)) ks"

definition sort_values :: "string list \<Rightarrow> dataframe \<Rightarrow> exn + dataframe" where
  "sort_values ks df =
     (if filter (\<lambda>c. c \<notin> set (columns df)) ks \<noteq> [] then
        Inl (KeyError (filter (\<lambda>c. c \<notin> set (columns df)) ks))
      else if \<not> list_all (\<lambda>c. sortable (col df c)) ks then Inl TypeError
      else Inr (df\<lparr>rows := sort_key (sort_key_of ks) (rows df)\<rparr>))"

text \<open>
  \<open>drop_duplicates(subset=...)\<close> keeps the first row of every key (\<open>keep='first'\<close> is the
  default); missing cells count as equal.
\<close>

fun keep_first :: "('a \<Rightarrow> 'k) \<Rightarrow> 'a list \<Rightarrow> 'a list" where
  "keep_first key [] = []"
| "keep_first key (x # xs) = x # keep_first key (filter (\<lambda>y. key y \<noteq> key x) xs)"

definition subset_key :: "string list \<Rightarrow> row \<Rightarrow> cell list" where
  "subset_key ks r = map (cell_of r) ks"

definition drop_duplicates :: "string list \<Rightarrow> dataframe \<Rightarrow> exn + dataframe" where
  "drop_duplicates ks df =
     (if filter (\<lambda>c. c \<notin> set (columns df)) ks \<noteq> [] then
        Inl (KeyError (filter (\<lambda>c. c \<notin> set (columns df)) ks))
      else Inr (df\<lparr>rows := keep_first (subset_key ks) (rows df)\<rparr>))"

text \<open>
  \<open>pd.concat(frames, ignore_index=True)\<close>: the columns in order of first appearance, the
  rows of every frame in order; a column a frame does not have is missing in its rows. The
  cells are taken as they are: the conversion of a column that is integer in one frame and
  float in another to one type is outside the model.
\<close>

definition restrict_row :: "string list \<Rightarrow> row \<Rightarrow> row" where
  "restrict_row cs r = filter (\<lambda>kv. fst kv \<in> set cs) r"

definition pd_concat :: "dataframe list \<Rightarrow> dataframe" where
  "pd_concat dfs =
     \<lparr>columns = keep_first (\<lambda>c. c) (concat (map columns dfs)),
      rows = concat (map (\<lambda>d. map (restrict_row (columns d)) (rows d)) dfs)\<rparr>"

section \<open>Files\<close>

text \<open>
  The file system maps a path to the table \<open>pd.read_csv\<close> reads there; \<open>None\<close> is a path
  where \<open>read_csv\<close> raises (no file, no columns to parse). Writing a table and reading it
  back gives the table.

  Creating a directory and writing a file can fail. Two failures follow from the path
  alone: \<open>os.makedirs\<close> raises on the empty path, which is what \<open>os.path.dirname\<close> returns for
  a path without a slash, and a path that ends in a slash names a directory, which cannot
  be opened for writing. Every other failure (the directory part is an existing file, no
  permission, no space) depends on the state of the disk: the parameter \<open>dk\<close> gives, per
  path, the error message of the operating system, or \<open>None\<close> when the call succeeds.
\<close>

type_synonym filesystem = "string \<Rightarrow> dataframe option"

record disk =
  mkdir_error :: "string \<Rightarrow> string option"
  write_error :: "string \<Rightarrow> string option"

definition dirname :: "string \<Rightarrow> string" where
  "dirname p =
     (let head = rev (dropWhile (\<lambda>c. c \<noteq> CHR ''/'') (rev p)) in
      if head \<noteq> [] \<and> \<not> list_all (\<lambda>c. c = CHR ''/'') head
      then rev (dropWhile (\<lambda>c. c = CHR ''/'') (rev head))
      else head)"

definition makedirs :: "disk \<Rightarrow> string \<Rightarrow> exn + unit" where
  "makedirs dk d =
     (if d = [] then Inl (FileNotFoundError d)
      else case mkdir_error dk d of Some m \<Rightarrow> Inl (OSError m) | None \<Rightarrow> Inr ())"

text \<open>\<open>df.to_csv(path, index=False)\<close>: the file system with the table written, or the error.\<close>

definition to_csv :: "disk \<Rightarrow> filesystem \<Rightarrow> string \<Rightarrow> dataframe \<Rightarrow> exn + filesystem" where
  "to_csv dk fs path df =
     (if path \<noteq> [] \<and> last path = CHR ''/'' then Inl (IsADirectoryError path)
      else case write_error dk path of
             Some m \<Rightarrow> Inl (OSError m)
           | None \<Rightarrow> Inr (fs(path \<mapsto> df)))"

section \<open>transformers.py: merge\_stock\_datasets\<close>

datatype merge_msg =
    MergingDatasets "string list"
  | ErrorReadingFile string
  | MergedRecords nat string

fun merge_level :: "merge_msg \<Rightarrow> level" where
  "merge_level (MergingDatasets _) = INFO"
| "merge_level (ErrorReadingFile _) = ERROR"
| "merge_level (MergedRecords _ _) = INFO"

definition business_key :: "string list" where
  "business_key = [''date'', ''symbol'', ''data_source'']"

text \<open>Lines 94 to 100: the files that can be read, in order; an unreadable one is logged.\<close>

definition read_inputs :: "filesystem \<Rightarrow> string list \<Rightarrow> dataframe list" where
  "read_inputs fs input_paths = List.map_filter fs input_paths"

definition read_errors :: "filesystem \<Rightarrow> string list \<Rightarrow> merge_msg list" where
  "read_errors fs input_paths = map ErrorReadingFile (filter (\<lambda>p. fs p = None) input_paths)"

text \<open>Lines 102 to 117: the guard, the concatenation, the dedup and the sort.\<close>

definition merge_frames :: "dataframe list \<Rightarrow> exn + dataframe" where
  "merge_frames all_data =
     (if all_data = [] then Inl (ValueError ''No valid data files to merge'')
      else case drop_duplicates business_key (pd_concat all_data) of
             Inl e \<Rightarrow> Inl e
           | Inr deduped \<Rightarrow> sort_values business_key deduped)"

record merge_run =
  merge_log :: "merge_msg list"
  merge_result :: "exn + filesystem \<times> string"

definition merge_stock_datasets ::
  "disk \<Rightarrow> filesystem \<Rightarrow> string list \<Rightarrow> string \<Rightarrow> merge_run" where
  "merge_stock_datasets dk fs input_paths output_path =
     (let started = MergingDatasets input_paths # read_errors fs input_paths in
      case merge_frames (read_inputs fs input_paths) of
        Inl e \<Rightarrow> \<lparr>merge_log = started, merge_result = Inl e\<rparr>
      | Inr merged_data \<Rightarrow>
          (case makedirs dk (dirname output_path) of
             Inl e \<Rightarrow> \<lparr>merge_log = started, merge_result = Inl e\<rparr>
           | Inr _ \<Rightarrow>
               (case to_csv dk fs output_path merged_data of
                  Inl e \<Rightarrow> \<lparr>merge_log = started, merge_result = Inl e\<rparr>
                | Inr fs' \<Rightarrow>
                    \<lparr>merge_log =
                       started @ [MergedRecords (length (rows merged_data)) output_path],
                     merge_result = Inr (fs', output_path)\<rparr>)))"

section \<open>Float arithmetic\<close>

text \<open>
  The result of an operation is \<open>None\<close> where IEEE arithmetic gives \<open>NaN\<close>; numpy and pandas
  do not raise on a division by zero, they return an infinity or \<open>NaN\<close>.
\<close>

fun fl_rank :: "fl \<Rightarrow> nat \<times> rat" where
  "fl_rank NInf = (0, 0)"
| "fl_rank (Fin q) = (1, q)"
| "fl_rank PInf = (2, 0)"

definition fl_less :: "fl \<Rightarrow> fl \<Rightarrow> bool" where
  "fl_less a b = (fl_rank a < fl_rank b)"

fun fl_sub :: "fl \<Rightarrow> fl \<Rightarrow> fl option" where
  "fl_sub (Fin a) (Fin b) = Some (Fin (a - b))"
| "fl_sub PInf PInf = None"
| "fl_sub NInf NInf = None"
| "fl_sub PInf _ = Some PInf"
| "fl_sub NInf _ = Some NInf"
| "fl_sub _ PInf = Some NInf"
| "fl_sub _ NInf = Some PInf"

fun fl_div :: "fl \<Rightarrow> fl \<Rightarrow> fl option" where
  "fl_div (Fin a) (Fin b) =
     (if b \<noteq> 0 then Some (Fin (a / b))
      else if 0 < a then Some PInf else if a < 0 then Some NInf else None)"
| "fl_div (Fin a) _ = Some (Fin 0)"
| "fl_div PInf (Fin b) = Some (if b < 0 then NInf else PInf)"
| "fl_div NInf (Fin b) = Some (if b < 0 then PInf else NInf)"
| "fl_div PInf PInf = None"
| "fl_div PInf NInf = None"
| "fl_div NInf PInf = None"
| "fl_div NInf NInf = None"

fun fl_sgn :: "fl \<Rightarrow> int" where
  "fl_sgn NInf = -1"
| "fl_sgn (Fin q) = (if 0 < q then 1 else if q < 0 then -1 else 0)"
| "fl_sgn PInf = 1"

fun fl_mul :: "fl \<Rightarrow> fl \<Rightarrow> fl option" where
  "fl_mul (Fin a) (Fin b) = Some (Fin (a * b))"
| "fl_mul a b =
     (if fl_sgn a * fl_sgn b = 0 then None
      else if 0 < fl_sgn a * fl_sgn b then Some PInf else Some NInf)"

definition lift2 :: "(fl \<Rightarrow> fl \<Rightarrow> fl option) \<Rightarrow> fl option \<Rightarrow> fl option \<Rightarrow> fl option" where
  "lift2 f a b =
     (case a of None \<Rightarrow> None | Some x \<Rightarrow> (case b of None \<Rightarrow> None | Some y \<Rightarrow> f x y))"




text \<open>A comparison with \<open>NaN\<close> is false.\<close>

definition x_gt :: "fl option \<Rightarrow> fl \<Rightarrow> bool" where
  "x_gt x b = (case x of None \<Rightarrow> False | Some a \<Rightarrow> fl_less b a)"

section \<open>Columns\<close>

fun num_of :: "cell \<Rightarrow> fl option" where
  "num_of (Num f) = Some f"
| "num_of (IntC i) = Some (Fin (of_int i))"
| "num_of _ = None"

definition numeric_col :: "cell list \<Rightarrow> bool" where
  "numeric_col cs = list_all (\<lambda>c. kind c = 0 \<or> kind c = 2) cs"

text \<open>
  \<open>series < x\<close> and \<open>series > x\<close> for a number \<open>x\<close>: elementwise, false on a missing cell,
  \<open>TypeError\<close> when the column holds text or timestamps.
\<close>

definition col_lt :: "cell list \<Rightarrow> fl \<Rightarrow> exn + bool list" where
  "col_lt cs x =
     (if numeric_col cs
      then Inr (map (\<lambda>c. case num_of c of Some f \<Rightarrow> fl_less f x | None \<Rightarrow> False) cs)
      else Inl TypeError)"

definition col_gt :: "cell list \<Rightarrow> fl \<Rightarrow> exn + bool list" where
  "col_gt cs x =
     (if numeric_col cs then Inr (map (\<lambda>c. x_gt (num_of c) x) cs) else Inl TypeError)"

definition cell_gt :: "cell \<Rightarrow> fl \<Rightarrow> exn + bool" where
  "cell_gt c x = (if kind c = 0 \<or> kind c = 2 then Inr (x_gt (num_of c) x) else Inl TypeError)"

text \<open>\<open>series.min()\<close> and \<open>series.max()\<close> skip missing cells; all missing gives missing.\<close>

fun pick :: "('a \<Rightarrow> 'a \<Rightarrow> bool) \<Rightarrow> 'a \<Rightarrow> 'a list \<Rightarrow> 'a" where
  "pick better m [] = m"
| "pick better m (x # xs) = pick better (if better x m then x else m) xs"

definition col_min :: "cell list \<Rightarrow> exn + cell" where
  "col_min cs =
     (if \<not> comparable cs then Inl TypeError
      else case filter (\<lambda>c. c \<noteq> Null) cs of
             [] \<Rightarrow> Inr Null
           | x # xs \<Rightarrow> Inr (pick (\<lambda>a b. enc a < enc b) x xs))"

definition col_max :: "cell list \<Rightarrow> exn + cell" where
  "col_max cs =
     (if \<not> comparable cs then Inl TypeError
      else case filter (\<lambda>c. c \<noteq> Null) cs of
             [] \<Rightarrow> Inr Null
           | x # xs \<Rightarrow> Inr (pick (\<lambda>a b. enc b < enc a) x xs))"

text \<open>\<open>unique()\<close> keeps the order of first appearance; \<open>nunique()\<close> does not count missing.\<close>

definition unique :: "cell list \<Rightarrow> cell list" where
  "unique cs = keep_first (\<lambda>c. c) cs"

definition nunique :: "cell list \<Rightarrow> nat" where
  "nunique cs = length (unique (filter (\<lambda>c. c \<noteq> Null) cs))"

text \<open>\<open>series == v\<close>: a missing cell equals nothing.\<close>

definition cell_eq :: "cell \<Rightarrow> cell \<Rightarrow> bool" where
  "cell_eq a b = (a \<noteq> Null \<and> b \<noteq> Null \<and> a = b)"

text \<open>\<open>df.duplicated(subset=ks).sum()\<close>: the rows that repeat the key of an earlier row.\<close>

definition duplicated_count :: "string list \<Rightarrow> dataframe \<Rightarrow> nat" where
  "duplicated_count ks df = length (rows df) - length (keep_first (subset_key ks) (rows df))"

text \<open>\<open>df[c] = values\<close>: replaces the column, or adds it as the last one.\<close>

definition set_column :: "dataframe \<Rightarrow> string \<Rightarrow> cell list \<Rightarrow> dataframe" where
  "set_column df c vs =
     \<lparr>columns = (if c \<in> set (columns df) then columns df else columns df @ [c]),
      rows = map (\<lambda>(r, v). AList.update c v r) (zip (rows df) vs)\<rparr>"

definition df_empty :: "dataframe \<Rightarrow> bool" where
  "df_empty df = (rows df = [] \<or> columns df = [])"

fun collect :: "(exn + 'a) list \<Rightarrow> exn + 'a list" where
  "collect [] = Inr []"
| "collect (x # xs) =
     (case x of
        Inl e \<Rightarrow> Inl e
      | Inr v \<Rightarrow> (case collect xs of Inl e \<Rightarrow> Inl e | Inr vs \<Rightarrow> Inr (v # vs)))"

section \<open>Dates and the clock\<close>

text \<open>
  \<open>pd.to_datetime\<close> on text is a parameter: \<open>parse s\<close> is the timestamp of \<open>s\<close>, or \<open>None\<close>
  where pandas raises. A number is read as nanoseconds since the epoch. The clock is the
  parameter \<open>now\<close>, the value of \<open>pd.Timestamp.now()\<close> during the call.
\<close>

fun to_datetime :: "(string \<Rightarrow> int option) \<Rightarrow> cell \<Rightarrow> exn + cell" where
  "to_datetime parse Null = Inr Null"
| "to_datetime parse (Ts t) = Inr (Ts t)"
| "to_datetime parse (Str s) =
     (case parse s of None \<Rightarrow> Inl (ValueError s) | Some t \<Rightarrow> Inr (Ts t))"
| "to_datetime parse (IntC i) = Inr (Ts i)"
| "to_datetime parse (Num (Fin q)) = Inr (Ts \<lfloor>q\<rfloor>)"
| "to_datetime parse (Num _) = Inl (ValueError ''inf'')"

definition is_datetime64 :: "cell list \<Rightarrow> bool" where
  "is_datetime64 cs = list_all (\<lambda>c. kind c = 0 \<or> kind c = 3) cs"

definition day_ns :: int where
  "day_ns = 86400000000000"

definition normalize :: "int \<Rightarrow> int" where
  "normalize t = t - t mod day_ns"

text \<open>\<open>ts > t\<close> and \<open>ts < t\<close> on timestamps: false on \<open>NaT\<close>.\<close>

definition ts_gt :: "cell \<Rightarrow> int \<Rightarrow> bool" where
  "ts_gt c t = (case c of Ts u \<Rightarrow> t < u | _ \<Rightarrow> False)"

definition ts_lt :: "cell \<Rightarrow> int \<Rightarrow> bool" where
  "ts_lt c t = (case c of Ts u \<Rightarrow> u < t | _ \<Rightarrow> False)"

section \<open>validators.py: the schemas\<close>

text \<open>
  A pandera schema lists, per column, the type and whether a missing cell is allowed.
  \<open>schema.validate\<close> raises \<open>SchemaError\<close> when a listed column is absent, holds a missing
  cell it does not allow, or holds a cell of another type; columns the schema does not list
  are ignored. The type of a column is read off its cells.
\<close>

datatype dtype = PaString | PaFloat | PaInt

type_synonym schema = "(string \<times> dtype \<times> bool) list"

definition get_raw_alpha_vantage_schema :: schema where
  "get_raw_alpha_vantage_schema =
     [(''date'', PaString, False), (''symbol'', PaString, False), (''open'', PaFloat, True),
      (''high'', PaFloat, True), (''low'', PaFloat, True), (''close'', PaFloat, False),
      (''volume'', PaInt, True), (''data_source'', PaString, False),
      (''extracted_at'', PaString, False)]"

definition get_raw_yahoo_finance_schema :: schema where
  "get_raw_yahoo_finance_schema =
     [(''date'', PaString, False), (''symbol'', PaString, False), (''open'', PaFloat, True),
      (''high'', PaFloat, True), (''low'', PaFloat, True), (''close'', PaFloat, False),
      (''volume'', PaInt, True), (''data_source'', PaString, False),
      (''extracted_at'', PaString, False)]"

definition get_transformed_data_schema :: schema where
  "get_transformed_data_schema =
     [(''date'', PaString, False), (''symbol'', PaString, False), (''open'', PaFloat, True),
      (''high'', PaFloat, True), (''low'', PaFloat, True), (''close'', PaFloat, False),
      (''volume'', PaInt, True), (''data_source'', PaString, False),
      (''processed_at'', PaString, False), (''daily_change_pct'', PaFloat, True),
      (''daily_volatility'', PaFloat, True)]"

definition has_dtype :: "dtype \<Rightarrow> cell \<Rightarrow> bool" where
  "has_dtype t c =
     (case c of
        Str _ \<Rightarrow> t = PaString
      | Num _ \<Rightarrow> t = PaFloat
      | IntC _ \<Rightarrow> t = PaInt
      | _ \<Rightarrow> False)"

definition cell_conforms :: "dtype \<Rightarrow> bool \<Rightarrow> cell \<Rightarrow> bool" where
  "cell_conforms t nullable c = (if c = Null then nullable else has_dtype t c)"

definition column_conforms :: "dataframe \<Rightarrow> string \<times> dtype \<times> bool \<Rightarrow> bool" where
  "column_conforms df spec =
     (fst spec \<in> set (columns df) \<and>
      list_all (cell_conforms (fst (snd spec)) (snd (snd spec))) (col df (fst spec)))"

definition schema_validate :: "schema \<Rightarrow> dataframe \<Rightarrow> exn + unit" where
  "schema_validate sch df =
     (case filter (\<lambda>spec. \<not> column_conforms df spec) sch of
        [] \<Rightarrow> Inr ()
      | spec # _ \<Rightarrow> Inl (SchemaError (fst spec)))"

section \<open>validators.py: the report\<close>

datatype verror =
    EmptyDataFrame
  | MissingRequiredColumns "string list"
  | SchemaValidationFailed exn
  | NegativeClosePrices
  | FutureDates nat
  | ValidationError exn

datatype vwarning =
    OlderThanOneYear
  | DuplicateRecords nat
  | UnusuallyHighPrice cell
  | UnusuallyHighVolume cell
  | HighVolatility nat
  | PriceInconsistency cell cell "fl option"

datatype metric =
    Count nat
  | Range cell cell
  | NullCounts "(string \<times> nat) list"
  | ValueCounts "(cell \<times> nat) list"

record report =
  passed :: bool
  errors :: "verror list"
  warnings :: "vwarning list"
  metrics :: "(string \<times> metric) list"

definition new_results :: report where
  "new_results = \<lparr>passed = True, errors = [], warnings = [], metrics = []\<rparr>"

text \<open>The three lines before every early \<open>return False, validation_results\<close>.\<close>

definition fail :: "report \<Rightarrow> verror \<Rightarrow> report" where
  "fail r e = r\<lparr>passed := False, errors := errors r @ [e]\<rparr>"

text \<open>
  How the body of a validator ends: it returns its report, or an exception leaves the
  \<open>try\<close> block with the report as it stands at that moment.
\<close>

datatype outcome = Returned report | Raised exn report

text \<open>
  Straight-line code after the last early return: every step either raises (the report is
  as the steps before left it) or updates the report.
\<close>

fun run_steps :: "(report \<Rightarrow> exn + report) list \<Rightarrow> report \<Rightarrow> outcome" where
  "run_steps [] r = Returned r"
| "run_steps (s # ss) r = (case s r of Inl e \<Rightarrow> Raised e r | Inr r' \<Rightarrow> run_steps ss r')"

text \<open>The \<open>except Exception\<close> handler and the returned pair \<open>(is_valid, results)\<close>.\<close>

definition finish :: "outcome \<Rightarrow> bool \<times> report" where
  "finish out =
     (case out of
        Returned r \<Rightarrow> (passed r, r)
      | Raised e r \<Rightarrow> (False, fail r (ValidationError e)))"

definition null_counts :: "dataframe \<Rightarrow> (string \<times> nat) list" where
  "null_counts df = map (\<lambda>c. (c, length (filter (\<lambda>x. x = Null) (col df c)))) (columns df)"

definition value_counts :: "cell list \<Rightarrow> (cell \<times> nat) list" where
  "value_counts cs =
     rev (sort_key snd (rev (map (\<lambda>v. (v, count_list cs v)) (unique (filter (\<lambda>c. c \<noteq> Null) cs)))))"

section \<open>validators.py: validate\_raw\_data\<close>

definition required_columns :: "string list" where
  "required_columns = [''date'', ''symbol'', ''close'', ''data_source'']"

definition raw_schema :: "string option \<Rightarrow> schema option" where
  "raw_schema validation_type =
     (if validation_type = Some ''alpha_vantage'' then Some get_raw_alpha_vantage_schema
      else if validation_type = Some ''yahoo_finance'' then Some get_raw_yahoo_finance_schema
      else None)"

definition warn :: "report \<Rightarrow> vwarning \<Rightarrow> report" where
  "warn r w = r\<lparr>warnings := warnings r @ [w]\<rparr>"

text \<open>Lines 139 to 144.\<close>

definition raw_metrics :: "dataframe \<Rightarrow> report \<Rightarrow> exn + report" where
  "raw_metrics df r =
     (case col_min (col df ''date'') of
        Inl e \<Rightarrow> Inl e
      | Inr lo \<Rightarrow>
          (case col_max (col df ''date'') of
             Inl e \<Rightarrow> Inl e
           | Inr hi \<Rightarrow>
               Inr (r\<lparr>metrics :=
                 [(''record_count'', Count (length (rows df))),
                  (''symbol_count'', Count (nunique (col df ''symbol''))),
                  (''date_range'', Range lo hi),
                  (''missing_values'', NullCounts (null_counts df))]\<rparr>)))"

text \<open>Lines 147 to 150.\<close>

definition raw_age_check ::
  "(string \<Rightarrow> int option) \<Rightarrow> int \<Rightarrow> dataframe \<Rightarrow> report \<Rightarrow> exn + report" where
  "raw_age_check parse now df r =
     (if ''date_temp'' \<in> set (columns df) then
        (case col_min (col df ''date'') of
           Inl e \<Rightarrow> Inl e
         | Inr lo \<Rightarrow>
             (case to_datetime parse lo of
                Inl e \<Rightarrow> Inl e
              | Inr oldest_date \<Rightarrow>
                  Inr (if ts_lt oldest_date (now - 365 * day_ns)
                       then warn r OlderThanOneYear else r)))
      else Inr r)"

text \<open>Lines 153 to 155.\<close>

definition raw_duplicates :: "dataframe \<Rightarrow> report \<Rightarrow> exn + report" where
  "raw_duplicates df r =
     Inr (if 0 < duplicated_count [''date'', ''symbol''] df
          then warn r (DuplicateRecords (duplicated_count [''date'', ''symbol''] df))
          else r)"

definition raw_after_future ::
  "(string \<Rightarrow> int option) \<Rightarrow> int \<Rightarrow> dataframe \<Rightarrow> report \<Rightarrow> outcome" where
  "raw_after_future parse now df r =
     run_steps [raw_metrics df, raw_age_check parse now df, raw_duplicates df] r"

text \<open>
  Lines 124 to 136. The assignment \<open>df['date_temp'] = ...\<close> writes to the caller's table, so
  the table is part of the result.
\<close>

definition raw_future_check ::
  "(string \<Rightarrow> int option) \<Rightarrow> int \<Rightarrow> dataframe \<Rightarrow> report \<Rightarrow> outcome \<times> dataframe" where
  "raw_future_check parse now df r =
     (if ''date'' \<in> set (columns df) then
        (case (if \<not> is_datetime64 (col df ''date'')
               then collect (map (to_datetime parse) (col df ''date''))
               else Inr (col df ''date'')) of
           Inl e \<Rightarrow> (Raised e r, df)
         | Inr date_temp \<Rightarrow>
             (let df1 = set_column df ''date_temp'' date_temp;
                  today = normalize now;
                  future_dates = filter (\<lambda>c. ts_gt c today) date_temp
              in if future_dates \<noteq> []
                 then (Returned (fail r (FutureDates (length future_dates))), df1)
                 else (raw_after_future parse now df1 r, df1)))
      else (raw_after_future parse now df r, df))"

definition validate_raw_body ::
  "(string \<Rightarrow> int option) \<Rightarrow> int \<Rightarrow> dataframe \<Rightarrow> string option \<Rightarrow> outcome \<times> dataframe" where
  "validate_raw_body parse now df validation_type =
     (if df_empty df then (Returned (fail new_results EmptyDataFrame), df)
      else if filter (\<lambda>c. c \<notin> set (columns df)) required_columns \<noteq> [] then
        (Returned (fail new_results
           (MissingRequiredColumns (filter (\<lambda>c. c \<notin> set (columns df)) required_columns))), df)
      else
        (case (case raw_schema validation_type of
                 None \<Rightarrow> Inr ()
               | Some sch \<Rightarrow> schema_validate sch df) of
           Inl (SchemaError c) \<Rightarrow>
             (Returned (fail new_results (SchemaValidationFailed (SchemaError c))), df)
         | Inl e \<Rightarrow> (Raised e new_results, df)
         | Inr _ \<Rightarrow>
             (case col_lt (col df ''close'') (Fin 0) of
                Inl e \<Rightarrow> (Raised e new_results, df)
              | Inr negative \<Rightarrow>
                  if list_ex (\<lambda>b. b) negative
                  then (Returned (fail new_results NegativeClosePrices), df)
                  else raw_future_check parse now df new_results)))"

text \<open>The returned pair, and the caller's table after the call.\<close>

definition validate_raw_data ::
  "(string \<Rightarrow> int option) \<Rightarrow> int \<Rightarrow> dataframe \<Rightarrow> string option
     \<Rightarrow> (bool \<times> report) \<times> dataframe" where
  "validate_raw_data parse now df validation_type =
     (finish (fst (validate_raw_body parse now df validation_type)),
      snd (validate_raw_body parse now df validation_type))"

section \<open>validators.py: validate\_transformed\_data\<close>

text \<open>Lines 200 to 202.\<close>

definition price_range_check :: "dataframe \<Rightarrow> report \<Rightarrow> exn + report" where
  "price_range_check df r =
     (case col_max (col df ''close'') of
        Inl e \<Rightarrow> Inl e
      | Inr max_price \<Rightarrow>
          (case cell_gt max_price (Fin 10000) of
             Inl e \<Rightarrow> Inl e
           | Inr high \<Rightarrow> Inr (if high then warn r (UnusuallyHighPrice max_price) else r)))"

text \<open>Lines 205 to 208.\<close>

definition volume_range_check :: "dataframe \<Rightarrow> report \<Rightarrow> exn + report" where
  "volume_range_check df r =
     (if ''volume'' \<in> set (columns df) then
        (case col_max (col df ''volume'') of
           Inl e \<Rightarrow> Inl e
         | Inr max_volume \<Rightarrow>
             (case cell_gt max_volume (Fin 1000000000) of
                Inl e \<Rightarrow> Inl e
              | Inr high \<Rightarrow> Inr (if high then warn r (UnusuallyHighVolume max_volume) else r)))
      else Inr r)"

text \<open>Lines 211 to 215.\<close>

definition volatility_check :: "dataframe \<Rightarrow> report \<Rightarrow> exn + report" where
  "volatility_check df r =
     (if ''daily_volatility'' \<in> set (columns df) then
        (case col_gt (col df ''daily_volatility'') (Fin 20) of
           Inl e \<Rightarrow> Inl e
         | Inr high \<Rightarrow>
             Inr (if filter (\<lambda>b. b) high \<noteq> []
                  then warn r (HighVolatility (length (filter (\<lambda>b. b) high))) else r))
      else Inr r)"

text \<open>Lines 218 to 224.\<close>

definition transformed_metrics :: "dataframe \<Rightarrow> report \<Rightarrow> exn + report" where
  "transformed_metrics df r =
     (case col_min (col df ''date'') of
        Inl e \<Rightarrow> Inl e
      | Inr lo \<Rightarrow>
          (case col_max (col df ''date'') of
             Inl e \<Rightarrow> Inl e
           | Inr hi \<Rightarrow>
               Inr (r\<lparr>metrics :=
                 [(''record_count'', Count (length (rows df))),
                  (''symbol_count'', Count (nunique (col df ''symbol''))),
                  (''date_range'', Range lo hi),
                  (''missing_values'', NullCounts (null_counts df)),
                  (''sources'', ValueCounts (value_counts (col df ''data_source'')))]\<rparr>)))"

text \<open>Lines 227 to 229.\<close>

definition transformed_duplicates :: "dataframe \<Rightarrow> report \<Rightarrow> exn + report" where
  "transformed_duplicates df r =
     Inr (if 0 < duplicated_count [''date'', ''symbol'', ''data_source''] df
          then warn r (DuplicateRecords
                 (duplicated_count [''date'', ''symbol'', ''data_source''] df))
          else r)"

text \<open>
  Lines 233 to 244. Python's \<open>max\<close> and \<open>min\<close> keep the element they hold unless the next one
  compares greater (smaller), and a comparison with \<open>NaN\<close> is false.
\<close>

definition x_less :: "fl option \<Rightarrow> fl option \<Rightarrow> bool" where
  "x_less a b =
     (case a of None \<Rightarrow> False | Some x \<Rightarrow> (case b of None \<Rightarrow> False | Some y \<Rightarrow> fl_less x y))"

definition py_max :: "fl option \<Rightarrow> fl option list \<Rightarrow> fl option" where
  "py_max c cs = pick (\<lambda>x m. x_less m x) c cs"

definition py_min :: "fl option \<Rightarrow> fl option list \<Rightarrow> fl option" where
  "py_min c cs = pick (\<lambda>x m. x_less x m) c cs"

definition max_diff_pct :: "fl option \<Rightarrow> fl option list \<Rightarrow> fl option" where
  "max_diff_pct c cs =
     lift2 fl_mul
       (lift2 fl_div (lift2 fl_sub (py_max c cs) (py_min c cs)) (py_min c cs))
       (Some (Fin 100))"

definition date_warnings :: "cell \<Rightarrow> cell \<Rightarrow> row list \<Rightarrow> vwarning list" where
  "date_warnings symbol date date_data =
     (if 1 < length date_data then
        (case map (\<lambda>r. num_of (cell_of r ''close'')) date_data of
           [] \<Rightarrow> []
         | c # cs \<Rightarrow>
             if x_gt (max_diff_pct c cs) (Fin 5)
             then [PriceInconsistency symbol date (max_diff_pct c cs)] else [])
      else [])"

definition symbol_warnings :: "dataframe \<Rightarrow> cell \<Rightarrow> vwarning list" where
  "symbol_warnings df symbol =
     (let symbol_data = filter (\<lambda>r. cell_eq (cell_of r ''symbol'') symbol) (rows df) in
      concat (map (\<lambda>date.
                date_warnings symbol date
                  (filter (\<lambda>r. cell_eq (cell_of r ''date'') date) symbol_data))
              (unique (map (\<lambda>r. cell_of r ''date'') symbol_data))))"

text \<open>
  The closes are numbers when the schema has passed; on a column of text or timestamps the
  arithmetic raises \<open>TypeError\<close>.
\<close>

definition consistency_check :: "dataframe \<Rightarrow> report \<Rightarrow> exn + report" where
  "consistency_check df r =
     (if 1 < nunique (col df ''data_source'') then
        (if numeric_col (col df ''close'')
         then Inr (r\<lparr>warnings :=
                 warnings r @ concat (map (symbol_warnings df) (unique (col df ''symbol'')))\<rparr>)
         else Inl TypeError)
      else Inr r)"

definition transformed_after_negative :: "dataframe \<Rightarrow> report \<Rightarrow> outcome" where
  "transformed_after_negative df r =
     run_steps
       [price_range_check df, volume_range_check df, volatility_check df,
        transformed_metrics df, transformed_duplicates df, consistency_check df] r"

definition validate_transformed_body :: "dataframe \<Rightarrow> outcome" where
  "validate_transformed_body df =
     (case schema_validate get_transformed_data_schema df of
        Inl (SchemaError c) \<Rightarrow>
          Returned (fail new_results (SchemaValidationFailed (SchemaError c)))
      | Inl e \<Rightarrow> Raised e new_results
      | Inr _ \<Rightarrow>
          (case col_lt (col df ''close'') (Fin 0) of
             Inl e \<Rightarrow> Raised e new_results
           | Inr negative \<Rightarrow>
               if list_ex (\<lambda>b. b) negative
               then Returned (fail new_results NegativeClosePrices)
               else transformed_after_negative df new_results))"

text \<open>The function assigns nothing to the table it is given: the pair is all it produces.\<close>

definition validate_transformed_data :: "dataframe \<Rightarrow> bool \<times> report" where
  "validate_transformed_data df = finish (validate_transformed_body df)"

section \<open>transformers.py: transform\_stock\_data\<close>













section \<open>loaders.py\<close>

text \<open>
  BigQuery is a store of tables. Every request to it can fail: the environment says, per
  request, whether it raises and what. \<open>calls\<close> records the requests made. A load job
  changes the table when it completes and not before; a failed job changes nothing.
\<close>

datatype call =
    LoadClient | LoadTableFromFile | LoadJobResult | LoadGetTable
  | UpsertClient | UpsertGetTable | UpsertQuery | UpsertQueryResult

record warehouse =
  tables :: "string \<Rightarrow> dataframe option"
  calls :: "call list"

record env =
  fault :: "call \<Rightarrow> exn option"
  load_job_id :: string
  query_job_id :: string

datatype write_disposition = WRITE_APPEND | WRITE_TRUNCATE | WRITE_EMPTY

datatype load_result =
    LoadSuccess string nat nat
  | UpsertSuccess string nat
  | StatusError exn

fun status :: "load_result \<Rightarrow> string" where
  "status (LoadSuccess _ _ _) = ''success''"
| "status (UpsertSuccess _ _) = ''success''"
| "status (StatusError _) = ''error''"

text \<open>\<open>except GoogleCloudError as e\<close>: that class is reported, any other exception goes on.\<close>

definition guarded :: "exn \<Rightarrow> exn + load_result" where
  "guarded e = (case e of GoogleCloudError m \<Rightarrow> Inr (StatusError e) | _ \<Rightarrow> Inl e)"

definition called :: "call \<Rightarrow> warehouse \<Rightarrow> warehouse" where
  "called c wh = wh\<lparr>calls := calls wh @ [c]\<rparr>"

definition apply_load :: "write_disposition \<Rightarrow> dataframe \<Rightarrow> dataframe option \<Rightarrow> dataframe" where
  "apply_load wd file old =
     (case old of
        None \<Rightarrow> file
      | Some t \<Rightarrow> if wd = WRITE_TRUNCATE then file else t\<lparr>rows := rows t @ rows file\<rparr>)"

definition load_to_bigquery ::
  "env \<Rightarrow> filesystem \<Rightarrow> warehouse \<Rightarrow> string \<Rightarrow> string \<Rightarrow> write_disposition
     \<Rightarrow> (exn + load_result) \<times> warehouse" where
  "load_to_bigquery ev fs wh data_path table_id wd =
     (let wh0 = called LoadClient wh in
      case fault ev LoadClient of
        Some e \<Rightarrow> (Inl e, wh0)
      | None \<Rightarrow>
     (case fs data_path of
        None \<Rightarrow> (Inl (FileNotFoundError data_path), wh0)
      | Some file \<Rightarrow>
     (let wh1 = called LoadTableFromFile wh0 in
      case fault ev LoadTableFromFile of
        Some e \<Rightarrow> (guarded e, wh1)
      | None \<Rightarrow>
     (let wh2 = called LoadJobResult wh1 in
      case fault ev LoadJobResult of
        Some e \<Rightarrow> (guarded e, wh2)
      | None \<Rightarrow>
     (if wd = WRITE_EMPTY \<and> (case tables wh2 table_id of None \<Rightarrow> False | Some t \<Rightarrow> rows t \<noteq> [])
      then (guarded (GoogleCloudError ''Already Exists''), wh2)
      else
     (let loaded = apply_load wd file (tables wh2 table_id);
          wh3 = called LoadGetTable (wh2\<lparr>tables := (tables wh2)(table_id \<mapsto> loaded)\<rparr>) in
      case fault ev LoadGetTable of
        Some e \<Rightarrow> (guarded e, wh3)
      | None \<Rightarrow>
          (Inr (LoadSuccess (load_job_id ev) (length (rows file)) (length (rows loaded))),
           wh3)))))))"

text \<open>
  The \<open>MERGE\<close> statement the function builds: a target row whose key columns all equal those
  of a source row takes the source's values in the other columns; a source row that matches
  no target row is inserted. In SQL a missing value equals nothing. BigQuery refuses the
  statement when it is malformed (no key column, nothing to update), when the target does
  not exist, or when two source rows match one target row.
\<close>

definition merge_match :: "string list \<Rightarrow> row \<Rightarrow> row \<Rightarrow> bool" where
  "merge_match key_columns t s = list_all (\<lambda>k. cell_eq (cell_of t k) (cell_of s k)) key_columns"

definition merge_update :: "string list \<Rightarrow> row \<Rightarrow> row \<Rightarrow> row" where
  "merge_update update_columns t s = fold (\<lambda>c r. AList.update c (cell_of s c) r) update_columns t"

definition merge_insert :: "string list \<Rightarrow> row \<Rightarrow> row" where
  "merge_insert cols s = map (\<lambda>c. (c, cell_of s c)) cols"

definition bq_merge ::
  "string list \<Rightarrow> string list \<Rightarrow> string list \<Rightarrow> dataframe option \<Rightarrow> dataframe
     \<Rightarrow> exn + dataframe \<times> nat" where
  "bq_merge key_columns update_columns cols target source =
     (case target of
        None \<Rightarrow> Inl (GoogleCloudError ''Not found'')
      | Some t \<Rightarrow>
          if key_columns = [] \<or> update_columns = [] \<or> cols = [] then
            Inl (GoogleCloudError ''Syntax error'')
          else if list_ex (\<lambda>tr. 1 < length (filter (merge_match key_columns tr) (rows source)))
                    (rows t) then
            Inl (GoogleCloudError ''MERGE must match at most one source row'')
          else
            Inr (t\<lparr>rows :=
                   map (\<lambda>tr. case find (merge_match key_columns tr) (rows source) of
                                Some s \<Rightarrow> merge_update update_columns tr s
                              | None \<Rightarrow> tr) (rows t)
                   @ map (merge_insert cols)
                       (filter (\<lambda>s. \<not> list_ex (\<lambda>tr. merge_match key_columns tr s) (rows t))
                          (rows source))\<rparr>,
                 length (filter (\<lambda>tr. list_ex (merge_match key_columns tr) (rows source))
                           (rows t))
                 + length (filter (\<lambda>s. \<not> list_ex (\<lambda>tr. merge_match key_columns tr s) (rows t))
                             (rows source))))"

definition upsert_to_bigquery ::
  "env \<Rightarrow> filesystem \<Rightarrow> warehouse \<Rightarrow> string \<Rightarrow> string \<Rightarrow> string \<Rightarrow> string list
     \<Rightarrow> (exn + load_result) \<times> warehouse" where
  "upsert_to_bigquery ev fs wh data_path table_id temp_table_id key_columns =
     (let wh0 = called UpsertClient wh in
      case fault ev UpsertClient of
        Some e \<Rightarrow> (Inl e, wh0)
      | None \<Rightarrow>
     (case load_to_bigquery ev fs wh0 data_path temp_table_id WRITE_TRUNCATE of
        (Inl e, wh1) \<Rightarrow> (Inl e, wh1)
      | (Inr temp_load_result, wh1) \<Rightarrow>
     (if status temp_load_result \<noteq> ''success'' then (Inr temp_load_result, wh1)
      else
     (let wh2 = called UpsertGetTable wh1 in
      case fault ev UpsertGetTable of
        Some e \<Rightarrow> (guarded e, wh2)
      | None \<Rightarrow>
     (case tables wh2 temp_table_id of
        None \<Rightarrow> (guarded (GoogleCloudError ''Not found''), wh2)
      | Some temp_table \<Rightarrow>
     (let cols = columns temp_table;
          update_columns = filter (\<lambda>c. c \<notin> set key_columns) cols;
          wh3 = called UpsertQuery wh2 in
      case fault ev UpsertQuery of
        Some e \<Rightarrow> (guarded e, wh3)
      | None \<Rightarrow>
     (let wh4 = called UpsertQueryResult wh3 in
      case fault ev UpsertQueryResult of
        Some e \<Rightarrow> (guarded e, wh4)
      | None \<Rightarrow>
     (case bq_merge key_columns update_columns cols (tables wh4 table_id) temp_table of
        Inl e \<Rightarrow> (guarded e, wh4)
      | Inr (merged, rows_affected) \<Rightarrow>
          (Inr (UpsertSuccess (query_job_id ev) rows_affected),
           wh4\<lparr>tables := (tables wh4)(table_id \<mapsto> merged)\<rparr>)))))))))"

section \<open>Auxiliary definitions and example data\<close>

text \<open>The table lines 106 to 117 of \<open>merge_stock_datasets\<close> produce when no step raises.\<close>

definition merged_of :: "dataframe list \<Rightarrow> dataframe" where
  "merged_of all_data =
     (pd_concat all_data)\<lparr>rows :=
        sort_key (sort_key_of business_key)
          (keep_first (subset_key business_key) (rows (pd_concat all_data)))\<rparr>"

text \<open>A row of the transformed format whose four prices are all \<open>c\<close>.\<close>

definition stock_row :: "string \<Rightarrow> string \<Rightarrow> rat \<Rightarrow> string \<Rightarrow> row" where
  "stock_row d s c src =
     [(''date'', Str d), (''symbol'', Str s), (''open'', Num (Fin c)), (''high'', Num (Fin c)),
      (''low'', Num (Fin c)), (''close'', Num (Fin c)), (''volume'', IntC 1000),
      (''data_source'', Str src), (''processed_at'', Str ''2023-09-02T06:00:00''),
      (''daily_change_pct'', Num (Fin 0)), (''daily_volatility'', Num (Fin 0))]"

definition stock_table :: "row list \<Rightarrow> dataframe" where
  "stock_table rs = \<lparr>columns = map fst get_transformed_data_schema, rows = rs\<rparr>"

definition dup_table :: dataframe where
  "dup_table = stock_table
     [stock_row ''2023-09-01'' ''AAPL'' (18115 / 100) ''alpha_vantage'',
      stock_row ''2023-09-01'' ''AAPL'' (18115 / 100) ''alpha_vantage'']"

definition one_file :: "string \<Rightarrow> dataframe \<Rightarrow> filesystem" where
  "one_file p df = Map.empty(p \<mapsto> df)"

text \<open>A disk where every directory can be made and every file written.\<close>

definition good_disk :: disk where
  "good_disk = \<lparr>mkdir_error = (\<lambda>d. None), write_error = (\<lambda>p. None)\<rparr>"

text \<open>A path the merged table can be written to.\<close>

definition writable :: "disk \<Rightarrow> string \<Rightarrow> bool" where
  "writable dk path =
     (dirname path \<noteq> [] \<and> mkdir_error dk (dirname path) = None
      \<and> last path \<noteq> CHR ''/'' \<and> write_error dk path = None)"

text \<open>What the claims call a row with a negative close, and a row dated after \<open>t\<close>.\<close>

definition is_negative :: "cell \<Rightarrow> bool" where
  "is_negative c = (case num_of c of Some f \<Rightarrow> fl_less f (Fin 0) | None \<Rightarrow> False)"

definition dated_after :: "(string \<Rightarrow> int option) \<Rightarrow> int \<Rightarrow> cell \<Rightarrow> bool" where
  "dated_after parse t c = (case to_datetime parse c of Inr (Ts u) \<Rightarrow> t < u | _ \<Rightarrow> False)"

text \<open>A validation result that failed: the flag, the report's \<open>passed\<close>, and an error.\<close>

definition failed :: "bool \<times> report \<Rightarrow> bool" where
  "failed res = (\<not> fst res \<and> \<not> passed (snd res) \<and> errors (snd res) \<noteq> [])"

text \<open>A parser for the dates of the examples, and a clock reading on 2023-09-02 at 06:00.\<close>

definition demo_parse :: "string \<Rightarrow> int option" where
  "demo_parse = map_of
     [(''2022-01-01'', 1640995200000000000), (''2023-09-01'', 1693526400000000000),
      (''2023-09-02'', 1693612800000000000), (''2999-01-01'', 32472144000000000000)]"

definition demo_now :: int where
  "demo_now = 1693634400000000000"

text \<open>A raw table: the required columns only.\<close>

definition raw_row :: "string \<Rightarrow> string \<Rightarrow> cell \<Rightarrow> string \<Rightarrow> row" where
  "raw_row d s c src =
     [(''date'', Str d), (''symbol'', Str s), (''close'', c), (''data_source'', Str src)]"

definition raw_table :: "row list \<Rightarrow> dataframe" where
  "raw_table rs = \<lparr>columns = required_columns, rows = rs\<rparr>"

text \<open>
  The failures the loaders handle: the exception is a \<open>GoogleCloudError\<close>, and it comes from
  a request inside a \<open>try\<close> block (creating a client is outside).
\<close>

definition is_cloud_error :: "exn \<Rightarrow> bool" where
  "is_cloud_error e = (case e of GoogleCloudError m \<Rightarrow> True | _ \<Rightarrow> False)"

definition cloud_errors_only :: "env \<Rightarrow> bool" where
  "cloud_errors_only ev =
     (fault ev UpsertClient = None \<and> fault ev LoadClient = None \<and>
      list_all (\<lambda>c. case fault ev c of None \<Rightarrow> True | Some e \<Rightarrow> is_cloud_error e)
        [LoadTableFromFile, LoadJobResult, LoadGetTable, UpsertGetTable, UpsertQuery,
         UpsertQueryResult])"

definition staging_failed :: "env \<Rightarrow> bool" where
  "staging_failed ev =
     (fault ev LoadTableFromFile \<noteq> None \<or> fault ev LoadJobResult \<noteq> None
      \<or> fault ev LoadGetTable \<noteq> None)"

text \<open>An environment where one request fails, and a warehouse with a destination table.\<close>

definition failing_at :: "call \<Rightarrow> exn \<Rightarrow> env" where
  "failing_at c e =
     \<lparr>fault = (\<lambda>x. if x = c then Some e else None), load_job_id = ''job-1'',
      query_job_id = ''job-2''\<rparr>"

definition demo_warehouse :: warehouse where
  "demo_warehouse =
     \<lparr>tables = (\<lambda>t. if t = ''stocks.daily''
                      then Some (stock_table [stock_row ''2023-08-31'' ''AAPL'' 180 ''alpha_vantage''])
                      else if t = ''stocks.staging''
                      then Some (stock_table [stock_row ''2023-08-30'' ''MSFT'' 300 ''yahoo_finance''])
                      else None),
      calls = []\<rparr>"





section \<open>Properties\<close>

lemma keep_first_subset: "set (keep_first k xs) \<subseteq> set xs"
  by (induction k xs rule: keep_first.induct) auto

lemma keep_first_keys: "k ` set (keep_first k xs) = k ` set xs"
  by (induction k xs rule: keep_first.induct) auto

lemma keep_first_distinct: "distinct (map k (keep_first k xs))"
proof (induction k xs rule: keep_first.induct)
  case (1 k)
  then show ?case by simp
next
  case (2 k x xs)
  have "k x \<notin> k ` set (filter (\<lambda>y. k y \<noteq> k x) xs)" by auto
  then have "k x \<notin> k ` set (keep_first k (filter (\<lambda>y. k y \<noteq> k x) xs))"
    unfolding keep_first_keys .
  with 2 show ?case by simp
qed

lemma keep_first_id: "distinct (map k xs) \<Longrightarrow> keep_first k xs = xs"
proof (induction xs)
  case Nil
  then show ?case by simp
next
  case (Cons x xs)
  from Cons.prems have "k x \<notin> k ` set xs" by simp
  then have "\<And>y. y \<in> set xs \<Longrightarrow> k y \<noteq> k x" by (metis imageI)
  then have "filter (\<lambda>y. k y \<noteq> k x) xs = xs"
    by (simp add: filter_id_conv)
  with Cons show ?case by simp
qed

lemma keep_first_filter:
  assumes resp: "\<And>x y. k x = k y \<Longrightarrow> P x = P y"
  shows "filter P (keep_first k xs) = keep_first k (filter P xs)"
proof (induction "length xs" arbitrary: xs rule: less_induct)
  case less
  show ?case
  proof (cases xs)
    case Nil
    then show ?thesis by simp
  next
    case (Cons x ys)
    have "length (filter (\<lambda>y. k y \<noteq> k x) ys) < length xs"
      using Cons by (simp add: le_imp_less_Suc)
    then have ih: "filter P (keep_first k (filter (\<lambda>y. k y \<noteq> k x) ys))
              = keep_first k (filter P (filter (\<lambda>y. k y \<noteq> k x) ys))"
      by (rule less)
    have comm: "filter P (filter (\<lambda>y. k y \<noteq> k x) ys) = filter (\<lambda>y. k y \<noteq> k x) (filter P ys)"
      by (simp add: conj_commute)
    show ?thesis
    proof (cases "P x")
      case True
      have "filter P (keep_first k (x # ys)) = x # keep_first k (filter P (filter (\<lambda>y. k y \<noteq> k x) ys))"
        using True by (simp only: keep_first.simps filter.simps if_True ih)
      also have "\<dots> = x # keep_first k (filter (\<lambda>y. k y \<noteq> k x) (filter P ys))"
        by (simp only: comm)
      also have "\<dots> = keep_first k (filter P (x # ys))"
        using True by simp
      finally show ?thesis using Cons by simp
    next
      case False
      have "\<And>y. P y \<Longrightarrow> k y \<noteq> k x"
      proof
        fix y assume y: "P y" "k y = k x"
        from resp[OF y(2)] y(1) False show False by simp
      qed
      then have eq: "filter P (filter (\<lambda>y. k y \<noteq> k x) ys) = filter P ys"
        by (simp add: conj_commute cong: conj_cong)
      have "filter P (keep_first k (x # ys)) = keep_first k (filter P (filter (\<lambda>y. k y \<noteq> k x) ys))"
        using False by (simp only: keep_first.simps filter.simps if_False ih)
      also have "\<dots> = keep_first k (filter P (x # ys))"
        using False by (simp only: eq filter.simps if_False)
      finally show ?thesis using Cons by simp
    qed
  qed
qed

lemma keep_first_first:
  "x \<in> set (keep_first k xs) \<Longrightarrow> find (\<lambda>y. k y = k x) xs = Some x"
proof (induction k xs rule: keep_first.induct)
  case (1 k)
  then show ?case by simp
next
  case (2 k z xs)
  show ?case
  proof (cases "k z = k x")
    case True
    have "k z \<notin> k ` set (keep_first k (filter (\<lambda>y. k y \<noteq> k z) xs))"
      unfolding keep_first_keys by auto
    with True 2 show ?thesis by auto
  next
    case False
    with 2 have "find (\<lambda>y. k y = k x) (filter (\<lambda>y. k y \<noteq> k z) xs) = Some x" by auto
    moreover have "find (\<lambda>y. k y = k x) (filter (\<lambda>y. k y \<noteq> k z) xs) = find (\<lambda>y. k y = k x) xs"
      using False by (induction xs) auto
    ultimately show ?thesis using False by simp
  qed
qed




lemma keep_first_length: "length (keep_first k xs) \<le> length xs"
proof (induction k xs rule: keep_first.induct)
  case (1 k)
  then show ?case by simp
next
  case (2 k x xs)
  note 2
  also have "length (filter (\<lambda>y. k y \<noteq> k x) xs) \<le> length xs" by simp
  finally show ?case by simp
qed

lemma keep_first_sorted: "sorted (map f xs) \<Longrightarrow> sorted (map f (keep_first k xs))"
proof (induction k xs rule: keep_first.induct)
  case (1 k)
  then show ?case by simp
next
  case (2 k x xs)
  have s: "sorted (map f (filter (\<lambda>y. k y \<noteq> k x) xs))"
    using 2(2) by (simp add: sorted_filter)
  have a: "\<forall>y\<in>set xs. f x \<le> f y"
    using 2(2) by simp
  have "set (keep_first k (filter (\<lambda>y. k y \<noteq> k x) xs)) \<subseteq> set xs"
    using keep_first_subset[of k "filter (\<lambda>y. k y \<noteq> k x) xs"] by auto
  with a have "\<forall>y\<in>set (keep_first k (filter (\<lambda>y. k y \<noteq> k x) xs)). f x \<le> f y"
    by blast
  with 2(1)[OF s] show ?case by simp
qed




lemma sort_keep_first_commute:
  assumes resp: "\<And>x y. k x = k y \<Longrightarrow> f x = f y"
  shows "sort_key f (keep_first k xs) = keep_first k (sort_key f xs)"
proof (rule properties_for_sort_key)
  have flt: "\<And>v. filter (\<lambda>y. f y = v) (keep_first k (sort_key f xs))
                 = filter (\<lambda>y. f y = v) (keep_first k xs)"
  proof -
    fix v
    have r: "\<And>x y. k x = k y \<Longrightarrow> (f x = v) = (f y = v)"
      using resp by metis
    have "filter (\<lambda>y. f y = v) (keep_first k (sort_key f xs))
          = keep_first k (filter (\<lambda>y. f y = v) (sort_key f xs))"
      by (rule keep_first_filter) (rule r)
    also have "\<dots> = keep_first k (filter (\<lambda>y. f y = v) xs)"
      by (simp only: sort_key_stable)
    also have "\<dots> = filter (\<lambda>y. f y = v) (keep_first k xs)"
      by (rule keep_first_filter[symmetric]) (rule r)
    finally show "filter (\<lambda>y. f y = v) (keep_first k (sort_key f xs))
                 = filter (\<lambda>y. f y = v) (keep_first k xs)" .
  qed
  show "mset (keep_first k (sort_key f xs)) = mset (keep_first k xs)"
  proof (rule multiset_eqI)
    fix x
    have c: "\<And>zs. count (mset zs) x = count (mset (filter (\<lambda>y. f y = f x) zs)) x"
      by (simp add: mset_filter)
    show "count (mset (keep_first k (sort_key f xs))) x = count (mset (keep_first k xs)) x"
      by (subst c, subst (2) c) (simp only: flt)
  qed
  show "\<And>x. x \<in> set (keep_first k (sort_key f xs)) \<Longrightarrow>
          filter (\<lambda>y. f x = f y) (keep_first k (sort_key f xs))
          = filter (\<lambda>y. f x = f y) (keep_first k xs)"
    using flt by (simp add: eq_commute)
  show "sorted (map f (keep_first k (sort_key f xs)))"
    by (rule keep_first_sorted) simp
qed

lemma sort_key_of_resp:
  "subset_key ks x = subset_key ks y \<Longrightarrow> sort_key_of ks x = sort_key_of ks y"
proof -
  have "\<And>r. sort_key_of ks r = map enc (subset_key ks r)"
    by (simp add: sort_key_of_def subset_key_def)
  then show "subset_key ks x = subset_key ks y \<Longrightarrow> sort_key_of ks x = sort_key_of ks y"
    by simp
qed




lemma sortable_set: "set cs = set ds \<Longrightarrow> sortable cs = sortable ds"
proof -
  assume eq: "set cs = set ds"
  have "\<And>xs. length (remdups (filter (\<lambda>k. k \<noteq> 0 \<and> k \<noteq> 1) (map kind xs)))
             = card {k \<in> kind ` set xs. k \<noteq> 0 \<and> k \<noteq> 1}"
    by (simp add: length_remdups_card_conv)
  then show "sortable cs = sortable ds"
    by (simp add: sortable_def eq)
qed

lemma col_keep_first_set:
  assumes "c \<in> set ks"
  shows "set (col (df\<lparr>rows := keep_first (subset_key ks) (rows df)\<rparr>) c) = set (col df c)"
proof -
  have sub: "(\<lambda>r. cell_of r c) ` set (keep_first (subset_key ks) (rows df))
             \<subseteq> (\<lambda>r. cell_of r c) ` set (rows df)"
    using keep_first_subset[of "subset_key ks" "rows df"] by blast
  have sup: "(\<lambda>r. cell_of r c) ` set (rows df)
             \<subseteq> (\<lambda>r. cell_of r c) ` set (keep_first (subset_key ks) (rows df))"
  proof
    fix v assume "v \<in> (\<lambda>r. cell_of r c) ` set (rows df)"
    then obtain r where r: "r \<in> set (rows df)" "v = cell_of r c" by blast
    then have "subset_key ks r \<in> subset_key ks ` set (keep_first (subset_key ks) (rows df))"
      by (simp only: keep_first_keys) blast
    then obtain r' where r': "r' \<in> set (keep_first (subset_key ks) (rows df))"
        "subset_key ks r' = subset_key ks r" by force
    from r'(2) assms have "cell_of r' c = cell_of r c"
      by (simp add: subset_key_def)
    with r(2) have "v = cell_of r' c" by simp
    with r'(1) show "v \<in> (\<lambda>r. cell_of r c) ` set (keep_first (subset_key ks) (rows df))"
      by (rule_tac image_eqI)
  qed
  from sub sup show ?thesis by (simp add: col_def)
qed

lemma sortable_keep_first:
  "list_all (\<lambda>c. sortable (col (df\<lparr>rows := keep_first (subset_key ks) (rows df)\<rparr>) c)) ks
   = list_all (\<lambda>c. sortable (col df c)) ks"
proof -
  have "\<And>c. c \<in> set ks \<Longrightarrow>
          sortable (col (df\<lparr>rows := keep_first (subset_key ks) (rows df)\<rparr>) c) = sortable (col df c)"
    by (rule sortable_set) (rule col_keep_first_set)
  then show ?thesis by (simp add: list_all_iff)
qed

lemma merge_frames_cases:
  "merge_frames all_data =
     (if all_data = [] then Inl (ValueError ''No valid data files to merge'')
      else if filter (\<lambda>c. c \<notin> set (columns (pd_concat all_data))) business_key \<noteq> [] then
        Inl (KeyError (filter (\<lambda>c. c \<notin> set (columns (pd_concat all_data))) business_key))
      else if \<not> list_all (\<lambda>c. sortable (col (pd_concat all_data) c)) business_key then Inl TypeError
      else Inr (merged_of all_data))"
  by (simp add: merge_frames_def drop_duplicates_def sort_values_def merged_of_def
      sortable_keep_first)

lemma merge_result_cases:
  "merge_result (merge_stock_datasets dk fs input_paths output_path) =
     (case merge_frames (read_inputs fs input_paths) of
        Inl e \<Rightarrow> Inl e
      | Inr m \<Rightarrow>
          (case makedirs dk (dirname output_path) of
             Inl e \<Rightarrow> Inl e
           | Inr u \<Rightarrow>
               (case to_csv dk fs output_path m of
                  Inl e \<Rightarrow> Inl e
                | Inr fs' \<Rightarrow> Inr (fs', output_path))))"
  by (simp add: merge_stock_datasets_def Let_def split: sum.splits)

lemma to_csv_Inr: "to_csv dk fs path df = Inr fs' \<Longrightarrow> fs' = fs(path \<mapsto> df)"
  by (auto simp: to_csv_def split: if_splits option.splits)

lemma merge_result_Inr:
  assumes "merge_result (merge_stock_datasets dk fs input_paths output_path) = Inr (fs', p)"
  shows "\<exists>m. merge_frames (read_inputs fs input_paths) = Inr m
             \<and> fs' = fs(output_path \<mapsto> m) \<and> p = output_path"
proof (cases "merge_frames (read_inputs fs input_paths)")
  case (Inl e)
  with assms show ?thesis by (simp add: merge_result_cases)
next
  case (Inr m)
  note m = Inr
  show ?thesis
  proof (cases "makedirs dk (dirname output_path)")
    case (Inl e)
    with assms m show ?thesis by (simp add: merge_result_cases)
  next
    case (Inr u)
    note u = Inr
    show ?thesis
    proof (cases "to_csv dk fs output_path m")
      case (Inl e)
      with assms m u show ?thesis by (simp add: merge_result_cases)
    next
      case (Inr fs2)
      from to_csv_Inr[OF Inr] have "fs2 = fs(output_path \<mapsto> m)" .
      moreover from assms m u Inr have "fs' = fs2 \<and> p = output_path"
        by (simp add: merge_result_cases)
      ultimately show ?thesis using m by blast
    qed
  qed
qed

lemma merge_log_levels:
  "filter (\<lambda>m. merge_level m = WARNING)
     (merge_log (merge_stock_datasets dk fs input_paths output_path)) = []"
  by (simp add: merge_stock_datasets_def read_errors_def Let_def filter_empty_conv
      split: sum.splits)

lemma merged_of_rows_alt:
  "rows (merged_of all_data) =
     keep_first (subset_key business_key)
       (sort_key (sort_key_of business_key) (rows (pd_concat all_data)))"
  unfolding merged_of_def
  by (simp add: sort_keep_first_commute[OF sort_key_of_resp])

lemma distinct_map_sort_key: "distinct (map k (sort_key f xs)) = distinct (map k xs)"
proof -
  have "mset (map k (sort_key f xs)) = mset (map k xs)" by simp
  then show ?thesis by (rule mset_eq_imp_distinct_iff)
qed

lemma merged_of_distinct:
  "distinct (map (subset_key business_key) (rows (merged_of all_data)))"
  by (simp add: merged_of_def distinct_map_sort_key keep_first_distinct)

lemma merged_of_keys:
  "set (map (subset_key business_key) (rows (merged_of all_data)))
   = set (map (subset_key business_key) (rows (pd_concat all_data)))"
  by (simp add: merged_of_def keep_first_keys)

lemma merged_of_first:
  "x \<in> set (rows (merged_of all_data)) \<Longrightarrow>
   find (\<lambda>y. subset_key business_key y = subset_key business_key x) (rows (pd_concat all_data))
     = Some x"
  by (simp add: merged_of_def keep_first_first)

subsection \<open>Claim C2: the dedup step of merge\<close>

text \<open>
  Claim C2, as amended. When \<open>merge_stock_datasets\<close> returns, the table it has written is
  the concatenation of the readable inputs, sorted stably by (date, symbol, data\_source),
  with the first row of every business key kept: it has exactly one row per business key of
  the input (the keys are distinct and none is lost), and each row is the first one seen
  with its key in the concatenation. The run logs no entry of level \<open>WARNING\<close>: the number of
  rows removed is not reported.
\<close>

theorem merge_dedup_keeps_first_seen:
  assumes "merge_result (merge_stock_datasets dk fs input_paths output_path) = Inr (fs', p)"
  shows "\<exists>merged. fs' p = Some merged
           \<and> rows merged =
               keep_first (subset_key business_key)
                 (sort_key (sort_key_of business_key)
                    (rows (pd_concat (read_inputs fs input_paths))))
           \<and> distinct (map (subset_key business_key) (rows merged))
           \<and> set (map (subset_key business_key) (rows merged))
               = set (map (subset_key business_key) (rows (pd_concat (read_inputs fs input_paths))))
           \<and> list_all (\<lambda>x. find (\<lambda>y. subset_key business_key y = subset_key business_key x)
                               (rows (pd_concat (read_inputs fs input_paths))) = Some x)
                 (rows merged)
           \<and> filter (\<lambda>m. merge_level m = WARNING)
                 (merge_log (merge_stock_datasets dk fs input_paths output_path)) = []"
proof -
  from merge_result_Inr[OF assms]
  obtain m where m: "merge_frames (read_inputs fs input_paths) = Inr m"
    and r: "fs' = fs(output_path \<mapsto> m)" "p = output_path"
    by blast
  from m have mm: "m = merged_of (read_inputs fs input_paths)"
    by (simp add: merge_frames_cases split: if_splits)
  have "fs' p = Some m" using r by simp
  moreover have "list_all (\<lambda>x. find (\<lambda>y. subset_key business_key y = subset_key business_key x)
                               (rows (pd_concat (read_inputs fs input_paths))) = Some x) (rows m)"
    unfolding mm list_all_iff using merged_of_first by blast
  ultimately show ?thesis
    unfolding mm
    using merged_of_rows_alt[of "read_inputs fs input_paths"]
      merged_of_distinct[of "read_inputs fs input_paths"]
      merged_of_keys[of "read_inputs fs input_paths"]
      merge_log_levels[of dk fs input_paths output_path]
    by blast
qed

lemma merge_on_good_disk:
  assumes "merge_frames (read_inputs fs input_paths) = Inr m"
    and "writable dk output_path"
  shows "merge_result (merge_stock_datasets dk fs input_paths output_path)
           = Inr (fs(output_path \<mapsto> m), output_path)"
proof -
  from assms(2) have "dirname output_path \<noteq> []" "mkdir_error dk (dirname output_path) = None"
    "last output_path \<noteq> CHR ''/''" "write_error dk output_path = None"
    by (simp_all add: writable_def)
  then have "makedirs dk (dirname output_path) = Inr ()"
    and "to_csv dk fs output_path m = Inr (fs(output_path \<mapsto> m))"
    by (simp_all add: makedirs_def to_csv_def)
  with assms(1) show ?thesis by (simp add: merge_result_cases)
qed

lemma writable_tmp: "writable good_disk ''/tmp/m.csv''" "writable good_disk ''/tmp/m2.csv''"
  by code_simp+

text \<open>The theorem at a file whose two rows share one business key.\<close>

theorem merge_dedup_keeps_first_seen_witness:
  "merge_result (merge_stock_datasets good_disk (one_file ''/tmp/a.csv'' dup_table)
       [''/tmp/a.csv''] ''/tmp/m.csv'')
     = Inr ((one_file ''/tmp/a.csv'' dup_table)(''/tmp/m.csv'' \<mapsto>
              stock_table [stock_row ''2023-09-01'' ''AAPL'' (18115 / 100) ''alpha_vantage'']),
            ''/tmp/m.csv'')
   \<and> (\<exists>merged.
         ((one_file ''/tmp/a.csv'' dup_table)(''/tmp/m.csv'' \<mapsto>
              stock_table [stock_row ''2023-09-01'' ''AAPL'' (18115 / 100) ''alpha_vantage'']))
           ''/tmp/m.csv'' = Some merged
         \<and> distinct (map (subset_key business_key) (rows merged)))"
proof -
  have f: "merge_frames [dup_table]
           = Inr (stock_table [stock_row ''2023-09-01'' ''AAPL'' (18115 / 100) ''alpha_vantage''])"
    by code_simp
  have r: "read_inputs (one_file ''/tmp/a.csv'' dup_table) [''/tmp/a.csv''] = [dup_table]"
    by (simp add: read_inputs_def one_file_def List.map_filter_simps)
  have h: "merge_result (merge_stock_datasets good_disk (one_file ''/tmp/a.csv'' dup_table)
       [''/tmp/a.csv''] ''/tmp/m.csv'')
     = Inr ((one_file ''/tmp/a.csv'' dup_table)(''/tmp/m.csv'' \<mapsto>
              stock_table [stock_row ''2023-09-01'' ''AAPL'' (18115 / 100) ''alpha_vantage'']),
            ''/tmp/m.csv'')"
    by (rule merge_on_good_disk) (simp_all add: r f writable_tmp)
  from merge_dedup_keeps_first_seen[OF h] h show ?thesis by blast
qed

text \<open>
  Claim C2 as stated asks for a warning that counts the removed rows. On a file of two rows
  with one business key, one row is removed and the log holds the two \<open>INFO\<close> entries only.
\<close>

theorem merge_reports_no_removed_count:
  "length (rows dup_table) = 2
   \<and> merge_frames (read_inputs (one_file ''/tmp/a.csv'' dup_table) [''/tmp/a.csv''])
       = Inr (stock_table [stock_row ''2023-09-01'' ''AAPL'' (18115 / 100) ''alpha_vantage''])
   \<and> merge_log (merge_stock_datasets good_disk (one_file ''/tmp/a.csv'' dup_table)
         [''/tmp/a.csv''] ''/tmp/m.csv'')
       = [MergingDatasets [''/tmp/a.csv''], MergedRecords 1 ''/tmp/m.csv'']"
proof -
  have f: "merge_frames [dup_table]
           = Inr (stock_table [stock_row ''2023-09-01'' ''AAPL'' (18115 / 100) ''alpha_vantage''])"
    by code_simp
  have d: "dirname ''/tmp/m.csv'' = ''/tmp''"
    by code_simp
  have r: "read_inputs (one_file ''/tmp/a.csv'' dup_table) [''/tmp/a.csv''] = [dup_table]"
    by (simp add: read_inputs_def one_file_def List.map_filter_simps)
  have e: "read_errors (one_file ''/tmp/a.csv'' dup_table) [''/tmp/a.csv''] = []"
    by (simp add: read_errors_def one_file_def)
  have l: "length (rows dup_table) = 2"
    by (simp add: dup_table_def stock_table_def)
  have "merge_log (merge_stock_datasets good_disk (one_file ''/tmp/a.csv'' dup_table)
         [''/tmp/a.csv''] ''/tmp/m.csv'')
       = [MergingDatasets [''/tmp/a.csv''], MergedRecords 1 ''/tmp/m.csv'']"
    by (simp add: merge_stock_datasets_def r f d e makedirs_def to_csv_def good_disk_def
        stock_table_def Let_def)
  with r f l show ?thesis by simp
qed

subsection \<open>Claim C3: when merge raises the no-data failure\<close>







subsection \<open>Claim C9: merging a merged table changes nothing\<close>

lemma restrict_row_twice:
  "set cs = set ds \<Longrightarrow> restrict_row cs (restrict_row ds r) = restrict_row ds r"
  by (simp add: restrict_row_def filter_id_conv)

lemma first_seen_set: "set (keep_first (\<lambda>c. c) xs) = set xs"
  using keep_first_keys[of "\<lambda>c. c" xs] by simp

lemma first_seen_twice: "keep_first (\<lambda>c. c) (keep_first (\<lambda>c. c) xs) = keep_first (\<lambda>c. c) xs"
proof -
  have "distinct (map (\<lambda>c. c) (keep_first (\<lambda>c. c) xs))"
    by (rule keep_first_distinct)
  then show ?thesis by (rule keep_first_id)
qed

lemma merged_of_single_columns:
  "columns (merged_of [t]) = keep_first (\<lambda>c. c) (columns t)"
  by (simp add: merged_of_def pd_concat_def)

lemma merged_of_single_rows_restricted:
  "r \<in> set (rows (merged_of [t])) \<Longrightarrow> restrict_row (columns (merged_of [t])) r = r"
proof -
  assume "r \<in> set (rows (merged_of [t]))"
  then have "r \<in> set (keep_first (subset_key business_key) (rows (pd_concat [t])))"
    by (simp add: merged_of_def)
  then have "r \<in> set (rows (pd_concat [t]))"
    using keep_first_subset by fastforce
  then obtain r0 where "r = restrict_row (columns t) r0"
    by (auto simp: pd_concat_def)
  then show ?thesis
    by (simp add: merged_of_single_columns restrict_row_twice first_seen_set)
qed

lemma pd_concat_merged_of:
  "pd_concat [merged_of [t]] = merged_of [t]"
proof -
  have c: "columns (pd_concat [merged_of [t]]) = columns (merged_of [t])"
    by (simp add: pd_concat_def merged_of_single_columns first_seen_twice)
  have "map (restrict_row (columns (merged_of [t]))) (rows (merged_of [t])) = rows (merged_of [t])"
    using merged_of_single_rows_restricted by (simp add: map_idI)
  then have r: "rows (pd_concat [merged_of [t]]) = rows (merged_of [t])"
    by (simp add: pd_concat_def)
  from c r show ?thesis by simp
qed

lemma merged_of_col_set:
  assumes "c \<in> set business_key"
  shows "set (col (merged_of all_data) c) = set (col (pd_concat all_data) c)"
proof -
  have "set (col (merged_of all_data) c)
        = set (col ((pd_concat all_data)\<lparr>rows := keep_first (subset_key business_key)
                                                   (rows (pd_concat all_data))\<rparr>) c)"
    by (simp add: merged_of_def col_def)
  then show ?thesis using col_keep_first_set[OF assms] by simp
qed

lemma merged_of_fixed:
  assumes "m = merged_of [t]"
  shows "merged_of [m] = m"
proof -
  have d: "distinct (map (subset_key business_key) (rows m))"
    unfolding assms by (rule merged_of_distinct)
  have s: "sorted (map (sort_key_of business_key) (rows m))"
    unfolding assms by (simp add: merged_of_def)
  have p: "pd_concat [m] = m"
    unfolding assms by (rule pd_concat_merged_of)
  show ?thesis
    by (simp add: merged_of_def[of "[m]"] p keep_first_id[OF d] sort_key_id_if_sorted[OF s])
qed

lemma merge_frames_fixed:
  assumes "merge_frames [t] = Inr m"
  shows "merge_frames [m] = Inr m"
proof -
  from assms have m: "m = merged_of [t]"
    and k: "filter (\<lambda>c. c \<notin> set (columns (pd_concat [t]))) business_key = []"
    and o: "list_all (\<lambda>c. sortable (col (pd_concat [t]) c)) business_key"
    by (simp_all add: merge_frames_cases split: if_splits)
  have p: "pd_concat [m] = m"
    unfolding m by (rule pd_concat_merged_of)
  have c: "columns m = columns (pd_concat [t])"
    by (simp add: m merged_of_def)
  have "\<And>c. c \<in> set business_key \<Longrightarrow> sortable (col m c) = sortable (col (pd_concat [t]) c)"
    unfolding m by (rule sortable_set) (rule merged_of_col_set)
  with o have o': "list_all (\<lambda>c. sortable (col m c)) business_key"
    by (simp add: list_all_iff)
  show ?thesis
    by (simp add: merge_frames_cases[of "[m]"] p c k o' merged_of_fixed[OF m])
qed

text \<open>
  Claim C9. If merging the single file \<open>path\<close> returns and writes the table \<open>m\<close>, then merging
  \<open>m\<close> again gives \<open>m\<close>: the same rows in the same order, both for the tables
  (\<open>merge_frames\<close>) and, where the second output can be written, for a second run of
  \<open>merge_stock_datasets\<close> on the file the first run wrote.
\<close>

theorem merge_idempotent:
  assumes "merge_result (merge_stock_datasets dk fs [path] output_path) = Inr (fs1, q)"
  shows "\<exists>m. fs1 q = Some m
           \<and> merge_frames [m] = Inr m
           \<and> (writable dk output_path2 \<longrightarrow>
                merge_result (merge_stock_datasets dk fs1 [q] output_path2)
                  = Inr (fs1(output_path2 \<mapsto> m), output_path2))"
proof -
  from merge_result_Inr[OF assms]
  obtain m where m: "merge_frames (read_inputs fs [path]) = Inr m"
    and r: "fs1 = fs(output_path \<mapsto> m)" "q = output_path"
    by blast
  obtain t where t: "read_inputs fs [path] = [t]"
  proof (cases "fs path")
    case None
    with m show ?thesis by (simp add: read_inputs_def List.map_filter_simps merge_frames_cases)
  next
    case (Some t)
    with that show ?thesis by (simp add: read_inputs_def List.map_filter_simps)
  qed
  from m t have fx: "merge_frames [m] = Inr m"
    by (simp add: merge_frames_fixed)
  have q: "fs1 q = Some m" using r by simp
  then have ri: "read_inputs fs1 [q] = [m]"
    by (simp add: read_inputs_def List.map_filter_simps)
  have "writable dk output_path2 \<longrightarrow>
          merge_result (merge_stock_datasets dk fs1 [q] output_path2)
               = Inr (fs1(output_path2 \<mapsto> m), output_path2)"
    using merge_on_good_disk[where fs = fs1 and input_paths = "[q]" and m = m and dk = dk
        and output_path = output_path2] ri fx
    by simp
  with q fx show ?thesis by blast
qed

text \<open>The theorem at the file of two rows with one business key.\<close>

theorem merge_idempotent_witness:
  "merge_result (merge_stock_datasets good_disk (one_file ''/tmp/a.csv'' dup_table)
       [''/tmp/a.csv''] ''/tmp/m.csv'')
     = Inr ((one_file ''/tmp/a.csv'' dup_table)(''/tmp/m.csv'' \<mapsto>
              stock_table [stock_row ''2023-09-01'' ''AAPL'' (18115 / 100) ''alpha_vantage'']),
            ''/tmp/m.csv'')
   \<and> writable good_disk ''/tmp/m2.csv''
   \<and> merge_frames [stock_table [stock_row ''2023-09-01'' ''AAPL'' (18115 / 100) ''alpha_vantage'']]
       = Inr (stock_table [stock_row ''2023-09-01'' ''AAPL'' (18115 / 100) ''alpha_vantage''])
   \<and> merge_result (merge_stock_datasets good_disk
          ((one_file ''/tmp/a.csv'' dup_table)(''/tmp/m.csv'' \<mapsto>
              stock_table [stock_row ''2023-09-01'' ''AAPL'' (18115 / 100) ''alpha_vantage'']))
          [''/tmp/m.csv''] ''/tmp/m2.csv'')
       = Inr (((one_file ''/tmp/a.csv'' dup_table)(''/tmp/m.csv'' \<mapsto>
              stock_table [stock_row ''2023-09-01'' ''AAPL'' (18115 / 100) ''alpha_vantage'']))
                (''/tmp/m2.csv'' \<mapsto>
              stock_table [stock_row ''2023-09-01'' ''AAPL'' (18115 / 100) ''alpha_vantage'']),
              ''/tmp/m2.csv'')"
proof -
  have f: "merge_frames [dup_table]
           = Inr (stock_table [stock_row ''2023-09-01'' ''AAPL'' (18115 / 100) ''alpha_vantage''])"
    by code_simp
  have r: "read_inputs (one_file ''/tmp/a.csv'' dup_table) [''/tmp/a.csv''] = [dup_table]"
    by (simp add: read_inputs_def one_file_def List.map_filter_simps)
  have h: "merge_result (merge_stock_datasets good_disk (one_file ''/tmp/a.csv'' dup_table)
       [''/tmp/a.csv''] ''/tmp/m.csv'')
     = Inr ((one_file ''/tmp/a.csv'' dup_table)(''/tmp/m.csv'' \<mapsto>
              stock_table [stock_row ''2023-09-01'' ''AAPL'' (18115 / 100) ''alpha_vantage'']),
            ''/tmp/m.csv'')"
    by (rule merge_on_good_disk) (simp_all add: r f writable_tmp)
  from merge_idempotent[OF h, where ?output_path2.0 = "''/tmp/m2.csv''"] h writable_tmp(2)
  show ?thesis by simp
qed

subsection \<open>Validators: how a run ends\<close>

lemma failed_Returned_fail: "failed (finish (Returned (fail r e)))"
  by (simp add: failed_def finish_def fail_def)

lemma failed_Raised: "failed (finish (Raised e r))"
  by (simp add: failed_def finish_def fail_def)

lemma col_lt_negative:
  assumes "r \<in> set (rows df)" and "is_negative (cell_of r c)"
  shows "case col_lt (col df c) (Fin 0) of Inl e \<Rightarrow> True | Inr bs \<Rightarrow> list_ex (\<lambda>b. b) bs"
proof (cases "numeric_col (col df c)")
  case False
  then show ?thesis by (simp add: col_lt_def)
next
  case True
  from assms have "\<exists>x\<in>set (rows df). (case num_of (cell_of x c) of Some f \<Rightarrow> fl_less f (Fin 0) | None \<Rightarrow> False)"
    unfolding is_negative_def by blast
  with True show ?thesis
    by (simp add: col_lt_def col_def list_ex_iff)
qed

lemma raw_negative_fails:
  assumes "r \<in> set (rows df)" and "is_negative (cell_of r ''close'')"
  shows "failed (fst (validate_raw_data parse now df validation_type))"
proof -
  note n = col_lt_negative[OF assms]
  show ?thesis
  proof (cases "col_lt (col df ''close'') (Fin 0)")
    case (Inl e)
    then show ?thesis
      by (simp add: validate_raw_data_def validate_raw_body_def failed_Returned_fail failed_Raised
          split: sum.splits exn.splits option.splits)
  next
    case (Inr bs)
    with n have "list_ex (\<lambda>b. b) bs" by simp
    with Inr show ?thesis
      by (simp add: validate_raw_data_def validate_raw_body_def failed_Returned_fail failed_Raised
          split: sum.splits exn.splits option.splits)
  qed
qed

lemma transformed_negative_fails:
  assumes "r \<in> set (rows df)" and "is_negative (cell_of r ''close'')"
  shows "failed (validate_transformed_data df)"
proof -
  note n = col_lt_negative[OF assms]
  show ?thesis
  proof (cases "col_lt (col df ''close'') (Fin 0)")
    case (Inl e)
    then show ?thesis
      by (simp add: validate_transformed_data_def validate_transformed_body_def
          failed_Returned_fail failed_Raised split: sum.splits exn.splits)
  next
    case (Inr bs)
    with n have "list_ex (\<lambda>b. b) bs" by simp
    with Inr show ?thesis
      by (simp add: validate_transformed_data_def validate_transformed_body_def
          failed_Returned_fail failed_Raised split: sum.splits exn.splits)
  qed
qed

subsection \<open>Claim C5: a negative close fails validation\<close>

text \<open>
  Claim C5. If some row of the table has a close below zero, raw validation (under any
  schema identifier) and transformed validation both return \<open>False\<close>, with \<open>passed = False\<close>
  in the report and at least one error.
\<close>

theorem negative_close_fails_validation:
  assumes "r \<in> set (rows df)" and "is_negative (cell_of r ''close'')"
  shows "failed (fst (validate_raw_data parse now df validation_type))
         \<and> failed (validate_transformed_data df)"
  using raw_negative_fails[OF assms] transformed_negative_fails[OF assms] by simp

text \<open>
  The theorem at a table whose only row has the close \<open>-1\<close>: both validators reach their
  negative-price check and report it.
\<close>

theorem negative_close_fails_validation_witness:
  "stock_row ''2023-09-01'' ''AAPL'' (- 1) ''alpha_vantage''
     \<in> set (rows (stock_table [stock_row ''2023-09-01'' ''AAPL'' (- 1) ''alpha_vantage'']))
   \<and> is_negative (cell_of (stock_row ''2023-09-01'' ''AAPL'' (- 1) ''alpha_vantage'') ''close'')
   \<and> failed (fst (validate_raw_data demo_parse demo_now
         (stock_table [stock_row ''2023-09-01'' ''AAPL'' (- 1) ''alpha_vantage'']) None))
   \<and> errors (snd (fst (validate_raw_data demo_parse demo_now
         (stock_table [stock_row ''2023-09-01'' ''AAPL'' (- 1) ''alpha_vantage'']) None)))
       = [NegativeClosePrices]
   \<and> failed (validate_transformed_data
         (stock_table [stock_row ''2023-09-01'' ''AAPL'' (- 1) ''alpha_vantage'']))
   \<and> errors (snd (validate_transformed_data
         (stock_table [stock_row ''2023-09-01'' ''AAPL'' (- 1) ''alpha_vantage''])))
       = [NegativeClosePrices]"
proof -
  have a: "stock_row ''2023-09-01'' ''AAPL'' (- 1) ''alpha_vantage''
     \<in> set (rows (stock_table [stock_row ''2023-09-01'' ''AAPL'' (- 1) ''alpha_vantage'']))"
    by (simp add: stock_table_def)
  have b: "is_negative (cell_of (stock_row ''2023-09-01'' ''AAPL'' (- 1) ''alpha_vantage'') ''close'')"
    by (simp add: is_negative_def cell_of_def stock_row_def fl_less_def)
  have c: "errors (snd (fst (validate_raw_data demo_parse demo_now
         (stock_table [stock_row ''2023-09-01'' ''AAPL'' (- 1) ''alpha_vantage'']) None)))
       = [NegativeClosePrices]"
    by code_simp
  have d: "errors (snd (validate_transformed_data
         (stock_table [stock_row ''2023-09-01'' ''AAPL'' (- 1) ''alpha_vantage''])))
       = [NegativeClosePrices]"
    by code_simp
  from negative_close_fails_validation[OF a b] a b c d show ?thesis by simp
qed

subsection \<open>Claim C10: the validators catch what their body raises\<close>

lemma run_steps_keeps:
  assumes "\<And>s r r'. s \<in> set ss \<Longrightarrow> s r = Inr r' \<Longrightarrow> passed r' = passed r \<and> errors r' = errors r"
  shows "case run_steps ss r of
           Returned r' \<Rightarrow> passed r' = passed r \<and> errors r' = errors r
         | Raised e r' \<Rightarrow> passed r' = passed r \<and> errors r' = errors r"
  using assms
proof (induction ss arbitrary: r)
  case Nil
  then show ?case by simp
next
  case (Cons s ss)
  show ?case
  proof (cases "s r")
    case (Inl e)
    then show ?thesis by simp
  next
    case (Inr r1)
    have k: "passed r1 = passed r \<and> errors r1 = errors r"
      using Cons.prems[of s r r1] Inr by simp
    have "case run_steps ss r1 of
           Returned r' \<Rightarrow> passed r' = passed r1 \<and> errors r' = errors r1
         | Raised e r' \<Rightarrow> passed r' = passed r1 \<and> errors r' = errors r1"
      by (rule Cons.IH) (use Cons.prems in auto)
    with Inr k show ?thesis by (simp split: outcome.splits)
  qed
qed

lemma raw_steps_keep:
  "raw_metrics df r = Inr r' \<Longrightarrow> passed r' = passed r \<and> errors r' = errors r"
  "raw_age_check parse now df r = Inr r' \<Longrightarrow> passed r' = passed r \<and> errors r' = errors r"
  "raw_duplicates df r = Inr r' \<Longrightarrow> passed r' = passed r \<and> errors r' = errors r"
  by (auto simp: raw_metrics_def raw_age_check_def raw_duplicates_def warn_def
      split: sum.splits if_splits)


lemma raw_after_future_keeps:
  "case raw_after_future parse now df r of
     Returned r' \<Rightarrow> passed r' = passed r \<and> errors r' = errors r
   | Raised e r' \<Rightarrow> passed r' = passed r \<and> errors r' = errors r"
  unfolding raw_after_future_def
  by (rule run_steps_keeps) (use raw_steps_keep in auto)


lemma raw_after_future_new:
  "case raw_after_future parse now df new_results of
     Returned r \<Rightarrow> passed r \<and> errors r = []
   | Raised e r \<Rightarrow> passed r \<and> errors r = []"
  using raw_after_future_keeps[where parse = parse and now = now and df = df and r = new_results]
  by (simp add: new_results_def split: outcome.splits)


lemma fail_new: "\<not> passed (fail new_results e) \<and> errors (fail new_results e) = [e]"
  by (simp add: fail_def new_results_def)










subsection \<open>Claim C6: the future-date check\<close>

lemma collect_Inr: "collect xs = Inr ys \<Longrightarrow> xs = map Inr ys"
  by (induction xs arbitrary: ys) (auto split: sum.splits)

lemma to_datetime_col:
  assumes "collect (map (to_datetime parse) cs) = Inr ds"
  shows "length ds = length cs \<and> (\<forall>i<length cs. to_datetime parse (cs ! i) = Inr (ds ! i))"
proof -
  from collect_Inr[OF assms] have m: "map (to_datetime parse) cs = map Inr ds" .
  then have l: "length ds = length cs" by (metis length_map)
  have "\<forall>i<length cs. to_datetime parse (cs ! i) = Inr (ds ! i)"
  proof (intro allI impI)
    fix i assume i: "i < length cs"
    then have a: "map (to_datetime parse) cs ! i = to_datetime parse (cs ! i)" by simp
    have b: "map Inr ds ! i = Inr (ds ! i)" using i l by simp
    from a[unfolded m] b show "to_datetime parse (cs ! i) = Inr (ds ! i)" by (rule trans[OF sym])
  qed
  with l show ?thesis by simp
qed

lemma datetime_cell:
  "kind c = 0 \<or> kind c = 3 \<Longrightarrow> dated_after parse t c = ts_gt c t"
  by (cases c) (simp_all add: dated_after_def ts_gt_def)

lemma future_dates_datetime:
  assumes "is_datetime64 cs"
  shows "filter (\<lambda>c. ts_gt c t) cs = filter (dated_after parse t) cs"
proof (rule filter_cong[OF refl])
  fix c assume "c \<in> set cs"
  with assms have "kind c = 0 \<or> kind c = 3"
    by (simp add: is_datetime64_def list_all_iff)
  then show "ts_gt c t = dated_after parse t c"
    by (simp add: datetime_cell)
qed

lemma future_dates_converted:
  assumes "collect (map (to_datetime parse) cs) = Inr ds"
  shows "length (filter (\<lambda>c. ts_gt c t) ds) = length (filter (dated_after parse t) cs)"
proof -
  from to_datetime_col[OF assms] have l: "length ds = length cs"
    and c: "\<And>i. i < length cs \<Longrightarrow> to_datetime parse (cs ! i) = Inr (ds ! i)" by auto
  have "\<And>i. i < length cs \<Longrightarrow> ts_gt (ds ! i) t = dated_after parse t (cs ! i)"
  proof -
    fix i assume "i < length cs"
    from c[OF this] show "ts_gt (ds ! i) t = dated_after parse t (cs ! i)"
      by (cases "ds ! i") (simp_all add: dated_after_def ts_gt_def)
  qed
  then have "{i. i < length ds \<and> ts_gt (ds ! i) t} = {i. i < length cs \<and> dated_after parse t (cs ! i)}"
    using l by auto
  then show ?thesis by (simp add: length_filter_conv_card)
qed

text \<open>The count the check reports is the number of rows dated after today.\<close>

lemma raw_future_check_cases:
  assumes "''date'' \<in> set (columns df)"
  shows "(\<exists>e. raw_future_check parse now df r = (Raised e r, df))
       \<or> (filter (dated_after parse (normalize now)) (col df ''date'') \<noteq> []
          \<and> (\<exists>df1. raw_future_check parse now df r
                = (Returned (fail r (FutureDates
                     (length (filter (dated_after parse (normalize now)) (col df ''date''))))), df1)))
       \<or> (filter (dated_after parse (normalize now)) (col df ''date'') = []
          \<and> (\<exists>df1. raw_future_check parse now df r = (raw_after_future parse now df1 r, df1)))"
proof (cases "is_datetime64 (col df ''date'')")
  case True
  note f = future_dates_datetime[OF True, of "normalize now" parse]
  show ?thesis
    using assms True by (simp add: raw_future_check_def Let_def f)
next
  case False
  show ?thesis
  proof (cases "collect (map (to_datetime parse) (col df ''date''))")
    case (Inl e)
    with assms False show ?thesis by (simp add: raw_future_check_def)
  next
    case (Inr ds)
    note n = future_dates_converted[OF Inr, of "normalize now"]
    have e: "(filter (\<lambda>c. ts_gt c (normalize now)) ds = [])
           = (filter (dated_after parse (normalize now)) (col df ''date'') = [])"
      using n by (metis length_0_conv)
    show ?thesis
      using assms False Inr n e by (simp add: raw_future_check_def Let_def)
  qed
qed

lemma errors_finish_new:
  assumes "case out of Returned r \<Rightarrow> passed r \<and> errors r = []
                      | Raised e r \<Rightarrow> passed r \<and> errors r = []"
  shows "FutureDates n \<notin> set (errors (snd (finish out)))"
  using assms by (cases out) (simp_all add: finish_def fail_def)

lemma raw_future_fails:
  assumes "r \<in> set (rows df)" and "dated_after parse (normalize now) (cell_of r ''date'')"
  shows "failed (fst (validate_raw_data parse now df validation_type))"
proof -
  have "cell_of r ''date'' \<in> set (col df ''date'')"
    using assms(1) by (simp add: col_def)
  with assms(2) have ne: "filter (dated_after parse (normalize now)) (col df ''date'') \<noteq> []"
    by (auto simp: filter_empty_conv)
  have fc: "''date'' \<in> set (columns df) \<Longrightarrow>
            failed (finish (fst (raw_future_check parse now df new_results)))"
    using raw_future_check_cases[where df = df and parse = parse and now = now and r = new_results] ne
    by (auto simp: failed_Raised failed_Returned_fail)
  show ?thesis
    unfolding validate_raw_data_def validate_raw_body_def
    using fc
    by (simp add: failed_Raised failed_Returned_fail required_columns_def
        split: sum.splits exn.splits option.splits)
qed

lemma raw_no_future:
  assumes "list_all (\<lambda>r. \<not> dated_after parse (normalize now) (cell_of r ''date'')) (rows df)"
  shows "FutureDates n \<notin> set (errors (snd (fst (validate_raw_data parse now df validation_type))))"
proof -
  have e: "filter (dated_after parse (normalize now)) (col df ''date'') = []"
    using assms by (simp add: col_def filter_empty_conv list_all_iff)
  have fc: "''date'' \<in> set (columns df) \<Longrightarrow>
            FutureDates n \<notin> set (errors (snd (finish (fst (raw_future_check parse now df new_results)))))"
  proof -
    assume "''date'' \<in> set (columns df)"
    from raw_future_check_cases[OF this, where parse = parse and now = now and r = new_results] e
    consider ex where "raw_future_check parse now df new_results = (Raised ex new_results, df)"
      | df1 where "raw_future_check parse now df new_results
                    = (raw_after_future parse now df1 new_results, df1)"
      by auto
    then show ?thesis
    proof cases
      case 1
      then show ?thesis by (simp add: finish_def fail_def new_results_def)
    next
      case 2
      then show ?thesis
        using errors_finish_new[OF raw_after_future_new[where parse = parse and now = now and df = df1]]
        by simp
    qed
  qed
  show ?thesis
    unfolding validate_raw_data_def validate_raw_body_def
    using fc
    by (simp add: finish_def fail_new required_columns_def
        split: sum.splits exn.splits option.splits)
qed

text \<open>
  Claim C6, as amended. The future-date check runs in raw validation: a table with a row
  whose date is strictly after the current date (normalized to the day) gets \<open>False\<close>, with
  \<open>passed = False\<close> and an error; a table whose rows are all dated today or earlier gets no
  future-date error. Transformed validation has no such check.
\<close>

theorem future_date_check_in_raw_validation:
  "(r \<in> set (rows df) \<and> dated_after parse (normalize now) (cell_of r ''date'') \<longrightarrow>
      failed (fst (validate_raw_data parse now df validation_type)))
   \<and> (list_all (\<lambda>r. \<not> dated_after parse (normalize now) (cell_of r ''date'')) (rows df) \<longrightarrow>
      FutureDates n \<notin> set (errors (snd (fst (validate_raw_data parse now df validation_type)))))"
  using raw_future_fails[where r = r and df = df and parse = parse and now = now
      and validation_type = validation_type]
    raw_no_future[where df = df and parse = parse and now = now and n = n
      and validation_type = validation_type]
  by blast

text \<open>
  The theorem at a raw table with one row dated 2999-01-01, and at one with a row dated
  2023-09-02, the day of the run.
\<close>

theorem future_date_check_in_raw_validation_witness:
  "raw_row ''2999-01-01'' ''AAPL'' (Num (Fin 100)) ''alpha_vantage''
     \<in> set (rows (raw_table [raw_row ''2999-01-01'' ''AAPL'' (Num (Fin 100)) ''alpha_vantage'']))
   \<and> dated_after demo_parse (normalize demo_now)
       (cell_of (raw_row ''2999-01-01'' ''AAPL'' (Num (Fin 100)) ''alpha_vantage'') ''date'')
   \<and> failed (fst (validate_raw_data demo_parse demo_now
       (raw_table [raw_row ''2999-01-01'' ''AAPL'' (Num (Fin 100)) ''alpha_vantage'']) None))
   \<and> list_all (\<lambda>r. \<not> dated_after demo_parse (normalize demo_now) (cell_of r ''date''))
       (rows (raw_table [raw_row ''2023-09-02'' ''AAPL'' (Num (Fin 100)) ''alpha_vantage'']))
   \<and> FutureDates 1 \<notin> set (errors (snd (fst (validate_raw_data demo_parse demo_now
       (raw_table [raw_row ''2023-09-02'' ''AAPL'' (Num (Fin 100)) ''alpha_vantage'']) None))))"
proof -
  have a: "raw_row ''2999-01-01'' ''AAPL'' (Num (Fin 100)) ''alpha_vantage''
     \<in> set (rows (raw_table [raw_row ''2999-01-01'' ''AAPL'' (Num (Fin 100)) ''alpha_vantage'']))"
    by (simp add: raw_table_def)
  have b: "dated_after demo_parse (normalize demo_now)
       (cell_of (raw_row ''2999-01-01'' ''AAPL'' (Num (Fin 100)) ''alpha_vantage'') ''date'')"
    by code_simp
  have c: "list_all (\<lambda>r. \<not> dated_after demo_parse (normalize demo_now) (cell_of r ''date''))
       (rows (raw_table [raw_row ''2023-09-02'' ''AAPL'' (Num (Fin 100)) ''alpha_vantage'']))"
    by code_simp
  from future_date_check_in_raw_validation[where parse = demo_parse and now = demo_now
      and r = "raw_row ''2999-01-01'' ''AAPL'' (Num (Fin 100)) ''alpha_vantage''"
      and df = "raw_table [raw_row ''2999-01-01'' ''AAPL'' (Num (Fin 100)) ''alpha_vantage'']"
      and validation_type = None]
    future_date_check_in_raw_validation[where parse = demo_parse and now = demo_now
      and df = "raw_table [raw_row ''2023-09-02'' ''AAPL'' (Num (Fin 100)) ''alpha_vantage'']"
      and validation_type = None and n = 1]
    a b c
  show ?thesis by blast
qed

text \<open>
  Claim C6 as stated has the check at the transformed stage too. A transformed table whose
  only row is dated 2999-01-01 passes \<open>validate_transformed_data\<close> with no error.
\<close>

theorem transformed_validation_accepts_future_date:
  "dated_after demo_parse (normalize demo_now)
     (cell_of (stock_row ''2999-01-01'' ''AAPL'' 100 ''alpha_vantage'') ''date'')
   \<and> fst (validate_transformed_data (stock_table [stock_row ''2999-01-01'' ''AAPL'' 100 ''alpha_vantage'']))
   \<and> passed (snd (validate_transformed_data
        (stock_table [stock_row ''2999-01-01'' ''AAPL'' 100 ''alpha_vantage''])))
   \<and> errors (snd (validate_transformed_data
        (stock_table [stock_row ''2999-01-01'' ''AAPL'' 100 ''alpha_vantage'']))) = []"
  by code_simp

subsection \<open>Claim C7: what validation does to the table it is given\<close>

text \<open>
  Claim C7 says the table is the same after the call. \<open>validate_raw_data\<close> on a valid raw
  table of one row returns \<open>True\<close> and leaves the caller's table with a fifth column,
  \<open>date_temp\<close>.
\<close>

theorem validate_raw_data_adds_date_temp:
  "fst (fst (validate_raw_data demo_parse demo_now
          (raw_table [raw_row ''2023-09-01'' ''AAPL'' (Num (Fin (18115 / 100))) ''alpha_vantage''])
          None))
   \<and> columns (raw_table [raw_row ''2023-09-01'' ''AAPL'' (Num (Fin (18115 / 100))) ''alpha_vantage''])
       = [''date'', ''symbol'', ''close'', ''data_source'']
   \<and> snd (validate_raw_data demo_parse demo_now
          (raw_table [raw_row ''2023-09-01'' ''AAPL'' (Num (Fin (18115 / 100))) ''alpha_vantage''])
          None)
       = \<lparr>columns = [''date'', ''symbol'', ''close'', ''data_source'', ''date_temp''],
          rows = [[(''date'', Str ''2023-09-01''), (''symbol'', Str ''AAPL''),
                   (''close'', Num (Fin (18115 / 100))), (''data_source'', Str ''alpha_vantage''),
                   (''date_temp'', Ts 1693526400000000000)]]\<rparr>"
  by code_simp

subsection \<open>Claim C8: upsert stages, merges and reports\<close>

lemma guarded_cloud: "is_cloud_error e \<Longrightarrow> guarded e = Inr (StatusError e)"
  by (cases e) (simp_all add: is_cloud_error_def guarded_def)

lemma guarded_status: "guarded e = Inr res \<Longrightarrow> status res = ''error''"
  by (cases e) (auto simp: guarded_def)

text \<open>The staging load, step by step, when only cloud errors occur and the file is there.\<close>

lemma load_truncate_cases:
  assumes c: "cloud_errors_only ev" and f: "fs data_path = Some file"
  shows "(staging_failed ev \<longrightarrow>
            (\<exists>e made. load_to_bigquery ev fs wh data_path t WRITE_TRUNCATE
                 = (Inr (StatusError e), wh\<lparr>tables := (if fault ev LoadTableFromFile = None \<and>
                                                          fault ev LoadJobResult = None
                                                       then (tables wh)(t \<mapsto> file) else tables wh),
                                              calls := calls wh @ made\<rparr>)
               \<and> UpsertQuery \<notin> set made))
       \<and> (\<not> staging_failed ev \<longrightarrow>
            load_to_bigquery ev fs wh data_path t WRITE_TRUNCATE
              = (Inr (LoadSuccess (load_job_id ev) (length (rows file)) (length (rows file))),
                 wh\<lparr>tables := (tables wh)(t \<mapsto> file),
                    calls := calls wh @ [LoadClient, LoadTableFromFile, LoadJobResult, LoadGetTable]\<rparr>))"
proof -
  from c have lc: "fault ev LoadClient = None"
    and g1: "\<And>e. fault ev LoadTableFromFile = Some e \<Longrightarrow> guarded e = Inr (StatusError e)"
    and g2: "\<And>e. fault ev LoadJobResult = Some e \<Longrightarrow> guarded e = Inr (StatusError e)"
    and g3: "\<And>e. fault ev LoadGetTable = Some e \<Longrightarrow> guarded e = Inr (StatusError e)"
    by (auto simp: cloud_errors_only_def intro: guarded_cloud)
  have al: "apply_load WRITE_TRUNCATE file (tables wh t) = file"
    by (simp add: apply_load_def split: option.splits)
  show ?thesis
  proof (cases "fault ev LoadTableFromFile")
    case (Some e)
    have "load_to_bigquery ev fs wh data_path t WRITE_TRUNCATE
            = (Inr (StatusError e), wh\<lparr>calls := calls wh @ [LoadClient, LoadTableFromFile]\<rparr>)"
      using lc f Some g1[OF Some] by (simp add: load_to_bigquery_def called_def Let_def)
    with Some show ?thesis
      by (auto simp: staging_failed_def intro!: exI[of _ e] exI[of _ "[LoadClient, LoadTableFromFile]"])
  next
    case None
    note n1 = None
    show ?thesis
    proof (cases "fault ev LoadJobResult")
      case (Some e)
      have "load_to_bigquery ev fs wh data_path t WRITE_TRUNCATE
              = (Inr (StatusError e),
                 wh\<lparr>calls := calls wh @ [LoadClient, LoadTableFromFile, LoadJobResult]\<rparr>)"
        using lc f n1 Some g2[OF Some] by (simp add: load_to_bigquery_def called_def Let_def)
      with Some n1 show ?thesis
        by (auto simp: staging_failed_def
            intro!: exI[of _ e] exI[of _ "[LoadClient, LoadTableFromFile, LoadJobResult]"])
    next
      case None
      note n2 = None
      show ?thesis
      proof (cases "fault ev LoadGetTable")
        case (Some e)
        have "load_to_bigquery ev fs wh data_path t WRITE_TRUNCATE
              = (Inr (StatusError e),
                 wh\<lparr>tables := (tables wh)(t \<mapsto> file),
                    calls := calls wh @ [LoadClient, LoadTableFromFile, LoadJobResult, LoadGetTable]\<rparr>)"
          using lc f n1 n2 Some g3[OF Some] al
          by (simp add: load_to_bigquery_def called_def Let_def)
        with Some n1 n2 show ?thesis
          by (auto simp: staging_failed_def intro!: exI[of _ e]
              exI[of _ "[LoadClient, LoadTableFromFile, LoadJobResult, LoadGetTable]"])
      next
        case None
        have "load_to_bigquery ev fs wh data_path t WRITE_TRUNCATE
              = (Inr (LoadSuccess (load_job_id ev) (length (rows file)) (length (rows file))),
                 wh\<lparr>tables := (tables wh)(t \<mapsto> file),
                    calls := calls wh @ [LoadClient, LoadTableFromFile, LoadJobResult, LoadGetTable]\<rparr>)"
          using lc f n1 n2 None al
          by (simp add: load_to_bigquery_def called_def Let_def)
        with None n1 n2 show ?thesis
          by (simp add: staging_failed_def)
      qed
    qed
  qed
qed

lemma bq_merge_error: "bq_merge ks us cs target source = Inl e \<Longrightarrow> is_cloud_error e"
  by (auto simp: bq_merge_def is_cloud_error_def split: option.splits if_splits)

lemma tables_called: "tables (called c w) = tables w"
  by (simp add: called_def)

lemma upsert_staging_failed:
  assumes c: "cloud_errors_only ev" and f: "fs data_path = Some file" and s: "staging_failed ev"
  shows "\<exists>e made. upsert_to_bigquery ev fs wh data_path table_id temp_table_id key_columns
           = (Inr (StatusError e),
              wh\<lparr>tables := (if fault ev LoadTableFromFile = None \<and> fault ev LoadJobResult = None
                            then (tables wh)(temp_table_id \<mapsto> file) else tables wh),
                 calls := calls wh @ made\<rparr>)
         \<and> UpsertQuery \<notin> set made"
proof -
  from c have uc: "fault ev UpsertClient = None" by (simp add: cloud_errors_only_def)
  from load_truncate_cases[where ev = ev and fs = fs and data_path = data_path and ?file = "file"
      and wh = "called UpsertClient wh" and t = temp_table_id, OF c f] s
  obtain e made where
    l: "load_to_bigquery ev fs (called UpsertClient wh) data_path temp_table_id WRITE_TRUNCATE
          = (Inr (StatusError e),
             (called UpsertClient wh)\<lparr>tables := (if fault ev LoadTableFromFile = None \<and>
                                                     fault ev LoadJobResult = None
                                                  then (tables (called UpsertClient wh))(temp_table_id \<mapsto> file)
                                                  else tables (called UpsertClient wh)),
                                        calls := calls (called UpsertClient wh) @ made\<rparr>)"
    and m: "UpsertQuery \<notin> set made"
    by blast
  have "upsert_to_bigquery ev fs wh data_path table_id temp_table_id key_columns
           = (Inr (StatusError e),
              wh\<lparr>tables := (if fault ev LoadTableFromFile = None \<and> fault ev LoadJobResult = None
                            then (tables wh)(temp_table_id \<mapsto> file) else tables wh),
                 calls := calls wh @ (UpsertClient # made)\<rparr>)"
    using uc by (simp add: upsert_to_bigquery_def Let_def l) (simp add: called_def)
  with m show ?thesis by (intro exI[of _ e] exI[of _ "UpsertClient # made"]) simp
qed

lemma upsert_staging_done:
  assumes c: "cloud_errors_only ev" and f: "fs data_path = Some file" and s: "\<not> staging_failed ev"
  shows "\<exists>res wh'. upsert_to_bigquery ev fs wh data_path table_id temp_table_id key_columns
           = (Inr res, wh')
         \<and> (temp_table_id \<noteq> table_id \<longrightarrow> tables wh' temp_table_id = Some file)
         \<and> (fault ev UpsertGetTable \<noteq> None \<or> fault ev UpsertQuery \<noteq> None
              \<or> fault ev UpsertQueryResult \<noteq> None \<longrightarrow> status res = ''error'')"
proof -
  from c have uc: "fault ev UpsertClient = None"
    and g1: "\<And>e. fault ev UpsertGetTable = Some e \<Longrightarrow> guarded e = Inr (StatusError e)"
    and g2: "\<And>e. fault ev UpsertQuery = Some e \<Longrightarrow> guarded e = Inr (StatusError e)"
    and g3: "\<And>e. fault ev UpsertQueryResult = Some e \<Longrightarrow> guarded e = Inr (StatusError e)"
    by (auto simp: cloud_errors_only_def intro: guarded_cloud)
  define wh1 where "wh1 = (called UpsertClient wh)\<lparr>tables := (tables (called UpsertClient wh))(temp_table_id \<mapsto> file),
                    calls := calls (called UpsertClient wh) @ [LoadClient, LoadTableFromFile, LoadJobResult, LoadGetTable]\<rparr>"
  from load_truncate_cases[where ev = ev and fs = fs and data_path = data_path and ?file = "file"
      and wh = "called UpsertClient wh" and t = temp_table_id, OF c f] s
  have l: "load_to_bigquery ev fs (called UpsertClient wh) data_path temp_table_id WRITE_TRUNCATE
              = (Inr (LoadSuccess (load_job_id ev) (length (rows file)) (length (rows file))), wh1)"
    by (simp add: wh1_def)
  have t1: "tables wh1 temp_table_id = Some file" by (simp add: wh1_def)
  note u = upsert_to_bigquery_def[of ev fs wh data_path table_id temp_table_id key_columns]
  show ?thesis
  proof (cases "fault ev UpsertGetTable")
    case (Some e)
    with uc l g1[OF Some] t1 show ?thesis by (simp add: u Let_def tables_called)
  next
    case None
    note n1 = None
    show ?thesis
    proof (cases "fault ev UpsertQuery")
      case (Some e)
      with uc l n1 g2[OF Some] t1 show ?thesis by (simp add: u Let_def tables_called)
    next
      case None
      note n2 = None
      show ?thesis
      proof (cases "fault ev UpsertQueryResult")
        case (Some e)
        with uc l n1 n2 g3[OF Some] t1 show ?thesis by (simp add: u Let_def tables_called)
      next
        case None
        note n3 = None
        show ?thesis
        proof (cases "bq_merge key_columns (filter (\<lambda>c. c \<notin> set key_columns) (columns file))
                        (columns file) (tables wh1 table_id) file")
          case (Inl e)
          from guarded_cloud[OF bq_merge_error[OF Inl]] Inl uc l n1 n2 n3 t1
          show ?thesis by (simp add: u Let_def tables_called)
        next
          case (Inr p)
          obtain merged n where p: "p = (merged, n)" by (cases p)
          from Inr p uc l n1 n2 n3 t1
          show ?thesis by (simp add: u Let_def tables_called)
        qed
      qed
    qed
  qed
qed

text \<open>
  Claim C8, as amended. Take a load attempt where the input file exists and every failure of
  BigQuery is a \<open>GoogleCloudError\<close> raised by a request inside a \<open>try\<close> block. Then
  \<open>upsert_to_bigquery\<close> returns a result and does not raise, and the result has
  \<open>status = error\<close> when a request failed. When the load job of the staging table has run,
  the staging table holds the input file and nothing of what it held before. When the
  staging load fails, the \<open>MERGE\<close> query is not sent, and a destination other than the
  staging table is as it was.
\<close>

theorem upsert_reports_cloud_errors:
  assumes "cloud_errors_only ev" and "fs data_path = Some file"
  shows "(\<exists>res. fst (upsert_to_bigquery ev fs wh data_path table_id temp_table_id key_columns) = Inr res
            \<and> (staging_failed ev \<or> fault ev UpsertGetTable \<noteq> None \<or> fault ev UpsertQuery \<noteq> None
                 \<or> fault ev UpsertQueryResult \<noteq> None \<longrightarrow> status res = ''error''))
       \<and> (fault ev LoadTableFromFile = None \<and> fault ev LoadJobResult = None
            \<and> temp_table_id \<noteq> table_id \<longrightarrow>
            tables (snd (upsert_to_bigquery ev fs wh data_path table_id temp_table_id key_columns))
              temp_table_id = Some file)
       \<and> (staging_failed ev \<longrightarrow>
            (\<exists>made. calls (snd (upsert_to_bigquery ev fs wh data_path table_id temp_table_id key_columns))
                       = calls wh @ made \<and> UpsertQuery \<notin> set made)
            \<and> (temp_table_id \<noteq> table_id \<longrightarrow>
                 tables (snd (upsert_to_bigquery ev fs wh data_path table_id temp_table_id key_columns))
                   table_id = tables wh table_id))"
proof (cases "staging_failed ev")
  case True
  from upsert_staging_failed[where ev = ev and fs = fs and data_path = data_path and ?file = "file"
      and wh = wh and table_id = table_id and temp_table_id = temp_table_id
      and key_columns = key_columns, OF assms True]
  obtain e made where
    u: "upsert_to_bigquery ev fs wh data_path table_id temp_table_id key_columns
           = (Inr (StatusError e),
              wh\<lparr>tables := (if fault ev LoadTableFromFile = None \<and> fault ev LoadJobResult = None
                            then (tables wh)(temp_table_id \<mapsto> file) else tables wh),
                 calls := calls wh @ made\<rparr>)"
    and m: "UpsertQuery \<notin> set made" by blast
  from u m True show ?thesis by simp
next
  case False
  from upsert_staging_done[where ev = ev and fs = fs and data_path = data_path and ?file = "file"
      and wh = wh and table_id = table_id and temp_table_id = temp_table_id
      and key_columns = key_columns, OF assms False]
  obtain res wh' where
    u: "upsert_to_bigquery ev fs wh data_path table_id temp_table_id key_columns = (Inr res, wh')"
    and t: "temp_table_id \<noteq> table_id \<longrightarrow> tables wh' temp_table_id = Some file"
    and s: "fault ev UpsertGetTable \<noteq> None \<or> fault ev UpsertQuery \<noteq> None
              \<or> fault ev UpsertQueryResult \<noteq> None \<longrightarrow> status res = ''error''"
    by blast
  from u t s False show ?thesis by simp
qed

text \<open>
  The theorem at an attempt whose load job fails with a \<open>GoogleCloudError\<close>: the result has
  status \<open>error\<close>, and the destination table is untouched.
\<close>

theorem upsert_reports_cloud_errors_witness:
  "cloud_errors_only (failing_at LoadJobResult (GoogleCloudError ''quota''))
   \<and> one_file ''/tmp/m.csv'' dup_table ''/tmp/m.csv'' = Some dup_table
   \<and> staging_failed (failing_at LoadJobResult (GoogleCloudError ''quota''))
   \<and> ''stocks.staging'' \<noteq> ''stocks.daily''
   \<and> (\<exists>res. fst (upsert_to_bigquery (failing_at LoadJobResult (GoogleCloudError ''quota''))
                  (one_file ''/tmp/m.csv'' dup_table) demo_warehouse ''/tmp/m.csv''
                  ''stocks.daily'' ''stocks.staging'' business_key) = Inr res
          \<and> status res = ''error'')
   \<and> tables (snd (upsert_to_bigquery (failing_at LoadJobResult (GoogleCloudError ''quota''))
                  (one_file ''/tmp/m.csv'' dup_table) demo_warehouse ''/tmp/m.csv''
                  ''stocks.daily'' ''stocks.staging'' business_key)) ''stocks.daily''
       = tables demo_warehouse ''stocks.daily''"
proof -
  have a: "cloud_errors_only (failing_at LoadJobResult (GoogleCloudError ''quota''))"
    by (simp add: cloud_errors_only_def failing_at_def is_cloud_error_def)
  have b: "one_file ''/tmp/m.csv'' dup_table ''/tmp/m.csv'' = Some dup_table"
    by (simp add: one_file_def)
  have c: "staging_failed (failing_at LoadJobResult (GoogleCloudError ''quota''))"
    by (simp add: staging_failed_def failing_at_def)
  have d: "''stocks.staging'' \<noteq> ''stocks.daily''"
    by simp
  from upsert_reports_cloud_errors[where ev = "failing_at LoadJobResult (GoogleCloudError ''quota'')"
      and fs = "one_file ''/tmp/m.csv'' dup_table" and data_path = "''/tmp/m.csv''"
      and ?file = dup_table and wh = demo_warehouse and table_id = "''stocks.daily''"
      and temp_table_id = "''stocks.staging''" and key_columns = business_key, OF a b] a b c d
  show ?thesis by blast
qed

text \<open>
  Claim C8 as stated covers every external error. When the load job ends with an exception
  that is not a \<open>GoogleCloudError\<close> (a timeout of the transport, say), the handler does not
  apply and \<open>upsert_to_bigquery\<close> raises it.
\<close>

theorem upsert_raises_other_errors:
  "fst (upsert_to_bigquery (failing_at LoadJobResult (OtherError ''timeout''))
          (one_file ''/tmp/m.csv'' dup_table) demo_warehouse ''/tmp/m.csv''
          ''stocks.daily'' ''stocks.staging'' business_key)
     = Inl (OtherError ''timeout'')"
  by code_simp

subsection \<open>Claim C4: the derived fields\<close>














end
